theory Spec2Isabelle
  imports Complex_Main "HOL-Library.Char_ord" "HOL-Library.List_Lexorder" "HOL-Library.Sublist"
    "HOL-Library.Multiset" "HOL-Library.Log_Nat"
begin

unbundle bit_operations_syntax

section \<open>Values, errors and the library boundary\<close>

text \<open>
  The module \<^verbatim>\<open>easyad.py\<close> is embedded function by function. Python values that
  travel through the module are values of \<open>pyval\<close>: text (\<open>str\<close>) is a list of
  characters, \<open>bytes\<close> a list of octets (a HOL character is an octet), a \<open>datetime\<close>
  the number of microseconds since 0001-01-01T00:00:00 (the resolution and the origin of
  Python's type), a \<open>timedelta\<close> a number of microseconds, a \<open>float\<close> the rational
  number that the double is. Where Python 2 and Python 3 differ (\<open>bytes\<close> against \<open>str\<close>,
  the quotient \<^verbatim>\<open>/\<close> of two integers), the model follows Python 3.
\<close>

type_synonym bytes = "char list"

datatype pyval =
    PNone
  | PBool bool
  | PInt int
  | PStr string
  | PBytes bytes
  | PList "pyval list"
  | PDatetime int

datatype ldap_error = INVALID_CREDENTIALS | SERVER_DOWN | FILTER_ERROR | NO_SUCH_OBJECT

datatype error =
    ValueError string
  | KeyError string
  | AttributeError
  | TypeError
  | OverflowError
  | LDAPError ldap_error

text \<open>
  Functions of the interpreter and of its standard library that the module calls, and
  whose full definition (Unicode case mapping, codecs, locale formats) is outside the
  module, are fields of a record that every embedded function takes:
  \<^item> \<open>str_lower\<close>: \<^verbatim>\<open>str.lower()\<close>; \<open>bytes_lower\<close>: \<^verbatim>\<open>bytes.lower()\<close>;
  \<^item> \<open>utf8_decode\<close>: \<^verbatim>\<open>bytes.decode("UTF-8")\<close>, \<open>None\<close> when it raises
    \<^verbatim>\<open>UnicodeDecodeError\<close> (a \<^verbatim>\<open>ValueError\<close>);
  \<^item> \<open>b64encode\<close>: \<^verbatim>\<open>b64encode(b).decode("UTF-8")\<close>;
  \<^item> \<open>int_of_str\<close>, \<open>int_of_bytes\<close>: \<^verbatim>\<open>int(s)\<close> on text and on bytes, \<open>None\<close> when it
    raises \<^verbatim>\<open>ValueError\<close>;
  \<^item> \<open>strftime\<close>: \<^verbatim>\<open>datetime.strftime(format)\<close>;
  \<^item> \<open>escape_filter_chars\<close>: \<^verbatim>\<open>ldap.filter.escape_filter_chars\<close> on text;
  \<^item> \<open>repr\<close>: the text that \<^verbatim>\<open>"{0}".format(x)\<close> gives for a value that is not text.
\<close>

record pylib =
  str_lower :: "string \<Rightarrow> string"
  bytes_lower :: "bytes \<Rightarrow> bytes"
  utf8_decode :: "bytes \<Rightarrow> string option"
  b64encode :: "bytes \<Rightarrow> string"
  int_of_str :: "string \<Rightarrow> int option"
  int_of_bytes :: "bytes \<Rightarrow> int option"
  strftime :: "string \<Rightarrow> int \<Rightarrow> string"
  escape_filter_chars :: "string \<Rightarrow> string"
  repr :: "pyval \<Rightarrow> string"

text \<open>\<^verbatim>\<open>int(x)\<close>: an integer or a boolean converts, text and bytes are parsed, anything
  else is a \<^verbatim>\<open>TypeError\<close>.\<close>

fun py_int :: "pylib \<Rightarrow> pyval \<Rightarrow> error + int" where
  "py_int lib (PInt n) = Inr n"
| "py_int lib (PBool b) = Inr (if b then 1 else 0)"
| "py_int lib (PStr s) =
     (case int_of_str lib s of
        None \<Rightarrow> Inl (ValueError ''invalid literal for int() with base 10'')
      | Some n \<Rightarrow> Inr n)"
| "py_int lib (PBytes b) =
     (case int_of_bytes lib b of
        None \<Rightarrow> Inl (ValueError ''invalid literal for int() with base 10'')
      | Some n \<Rightarrow> Inr n)"
| "py_int lib PNone = Inl TypeError"
| "py_int lib (PList xs) = Inl TypeError"
| "py_int lib (PDatetime d) = Inl TypeError"

section \<open>Calendar arithmetic of \<^verbatim>\<open>datetime\<close>\<close>

definition us_per_day :: int where
  "us_per_day = 86400000000"

text \<open>Days before January 1st of a year of the proleptic Gregorian calendar, as
  \<^verbatim>\<open>datetime\<close> counts them.\<close>

definition days_before_year :: "int \<Rightarrow> int" where
  "days_before_year y = (y - 1) * 365 + (y - 1) div 4 - (y - 1) div 100 + (y - 1) div 400"

text \<open>\<^verbatim>\<open>datetime.max\<close> is 9999-12-31T23:59:59.999999, \<^verbatim>\<open>datetime.min\<close> is 0.\<close>

definition datetime_max :: int where
  "datetime_max = days_before_year 10000 * us_per_day - 1"

text \<open>\<^verbatim>\<open>datetime(year=1601, month=1, day=1)\<close>\<close>

definition epoch_start :: int where
  "epoch_start = days_before_year 1601 * us_per_day"

text \<open>\<^verbatim>\<open>datetime + timedelta\<close> raises \<^verbatim>\<open>OverflowError\<close> outside the years 1 to 9999.\<close>

definition datetime_add :: "int \<Rightarrow> int \<Rightarrow> error + int" where
  "datetime_add d td =
     (let r = d + td in
      if 0 \<le> r \<and> r \<le> datetime_max then Inr r else Inl OverflowError)"

section \<open>Floating-point arithmetic of the interpreter\<close>

text \<open>
  A finite double is a rational number with a significand of 53 bits, and an operation
  on doubles gives the double nearest to the exact result, a tie going to the even
  significand. \<open>round_half_even\<close> is the rounding of a rational to an integer,
  \<open>binary_exponent q\<close> the exponent \<open>e\<close> with \<open>2\<^sup>e \<le> \<bar>q\<bar> < 2\<^sup>e\<^sup>+\<^sup>1\<close>, and \<open>round_double q\<close> the
  nearest rational with a significand of 53 bits. The exponent is not bounded in
  \<open>round_double\<close>: its callers check the upper bound \<open>2\<^sup>1\<^sup>0\<^sup>2\<^sup>4\<close>, and no quotient or product
  of the module is small enough to be subnormal.
\<close>

definition round_half_even :: "rat \<Rightarrow> int" where
  "round_half_even q =
     (let f = \<lfloor>q\<rfloor>; r = q - of_int f
      in if r < 1 / 2 then f else if 1 / 2 < r then f + 1 else if even f then f else f + 1)"

definition binary_exponent :: "rat \<Rightarrow> int" where
  "binary_exponent q =
     (case quotient_of \<bar>q\<bar> of
        (a, b) \<Rightarrow> (let d = bitlen a - bitlen b in if 2 powi d \<le> \<bar>q\<bar> then d else d - 1))"

definition round_double :: "rat \<Rightarrow> rat" where
  "round_double q =
     (if q = 0 then 0
      else (let e = binary_exponent q - 52
            in of_int (round_half_even (q / 2 powi e)) * 2 powi e))"

text \<open>\<^verbatim>\<open>seconds_since_epoch = timestamp / 10 ** 7\<close>: the true division of two integers is
  the double nearest to the exact quotient, and raises \<^verbatim>\<open>OverflowError\<close> when that double
  is not finite.\<close>

definition seconds_since_epoch :: "int \<Rightarrow> error + rat" where
  "seconds_since_epoch timestamp =
     (let x = round_double (of_int timestamp / 10 ^ 7) in
      if 2 ^ 1024 \<le> \<bar>x\<bar> then Inl OverflowError else Inr x)"

text \<open>The integral part of a float (\<^verbatim>\<open>modf\<close>): rounding towards zero.\<close>

definition float_trunc :: "rat \<Rightarrow> int" where
  "float_trunc x = (if 0 \<le> x then \<lfloor>x\<rfloor> else \<lceil>x\<rceil>)"

text \<open>
  The microseconds of \<^verbatim>\<open>timedelta(seconds=x)\<close> for a float \<open>x\<close>: the constructor splits \<open>x\<close>
  into its integral and its fractional part, counts \<open>10\<^sup>6\<close> microseconds for each whole
  second, multiplies the fractional part by \<open>10\<^sup>6\<close> in floating point, and rounds that
  product to the nearest microsecond, a tie going to the even total.
\<close>

definition timedelta_micros :: "rat \<Rightarrow> int" where
  "timedelta_micros seconds =
     (let intpart = float_trunc seconds;
          fracpart = seconds - of_int intpart
      in intpart * 10 ^ 6 + round_half_even (round_double (10 ^ 6 * fracpart)))"

text \<open>\<^verbatim>\<open>timedelta(seconds=seconds_since_epoch)\<close>: a \<^verbatim>\<open>timedelta\<close> holds between -999999999 days
  and 999999999 days, 23:59:59.999999; beyond, the constructor raises \<^verbatim>\<open>OverflowError\<close>.\<close>

definition timedelta_seconds :: "rat \<Rightarrow> error + int" where
  "timedelta_seconds seconds =
     (let us = timedelta_micros seconds in
      if - 999999999 * us_per_day \<le> us \<and> us < 1000000000 * us_per_day
      then Inr us else Inl OverflowError)"

section \<open>Timestamp codec\<close>

definition convert_ad_timestamp :: "pylib \<Rightarrow> pyval \<Rightarrow> bool \<Rightarrow> string \<Rightarrow> error + pyval" where
  "convert_ad_timestamp lib timestamp json_safe str_format =
     (case py_int lib timestamp of
        Inl e \<Rightarrow> Inl e
      | Inr t \<Rightarrow>
          if t = 0 then Inr PNone
          else
            (case seconds_since_epoch t of
               Inl e \<Rightarrow> Inl e
             | Inr seconds \<Rightarrow>
                 (case timedelta_seconds seconds of
                    Inl e \<Rightarrow> Inl e
                  | Inr delta \<Rightarrow>
                      (case datetime_add epoch_start delta of
                         Inl e \<Rightarrow> Inl e
                       | Inr converted_timestamp \<Rightarrow>
                           if json_safe
                           then Inr (PStr (strftime lib str_format converted_timestamp))
                           else Inr (PDatetime converted_timestamp)))))"

text \<open>
  \<^verbatim>\<open>_get_last_logon\<close> reads the clock (\<^verbatim>\<open>datetime.now()\<close>): the reading is the argument
  \<open>now\<close>. \<^verbatim>\<open>delta.days\<close> is the floor of the difference in days. In the branch for
  \<open>json_safe\<close> the source calls \<^verbatim>\<open>timestamp.strftime("%x %X")\<close> and drops the result.
\<close>

definition get_last_logon :: "pylib \<Rightarrow> int \<Rightarrow> pyval \<Rightarrow> bool \<Rightarrow> error + pyval" where
  "get_last_logon lib now timestamp json_safe =
     (case convert_ad_timestamp lib timestamp False ''%x %X'' of
        Inl e \<Rightarrow> Inl e
      | Inr PNone \<Rightarrow> Inr (PInt (- 1))
      | Inr (PDatetime d) \<Rightarrow>
          (let delta = now - d;
               days = delta div us_per_day
           in if days \<le> 14 then Inr (PStr ''<= 14 days'')
              else if json_safe
              then (let dropped = strftime lib ''%x %X'' d in Inr (PDatetime d))
              else Inr (PDatetime d))
      | Inr other \<Rightarrow> Inl TypeError)"

section \<open>Text helpers\<close>

text \<open>\<^verbatim>\<open>s.split(sep)\<close> for a separator of one character: never empty.\<close>

fun split_on :: "char \<Rightarrow> string \<Rightarrow> string list" where
  "split_on sep [] = [[]]"
| "split_on sep (c # cs) =
     (if c = sep then [] # split_on sep cs
      else (case split_on sep cs of
              [] \<Rightarrow> [[c]]
            | x # xs \<Rightarrow> (c # x) # xs))"

text \<open>\<^verbatim>\<open>s.rstrip(",")\<close> removes every trailing comma.\<close>

definition rstrip :: "char \<Rightarrow> string \<Rightarrow> string" where
  "rstrip ch s = rev (dropWhile (\<lambda>c. c = ch) (rev s))"

text \<open>\<^verbatim>\<open>"{0}".format(x)\<close>\<close>

fun format_str :: "pylib \<Rightarrow> pyval \<Rightarrow> string" where
  "format_str lib (PStr s) = s"
| "format_str lib v = repr lib v"

text \<open>Truth value of a Python value, as \<^verbatim>\<open>if x\<close> and \<^verbatim>\<open>not x\<close> read it.\<close>

fun truthy :: "pyval \<Rightarrow> bool" where
  "truthy PNone = False"
| "truthy (PBool b) = b"
| "truthy (PInt n) = (n \<noteq> 0)"
| "truthy (PStr s) = (s \<noteq> [])"
| "truthy (PBytes b) = (b \<noteq> [])"
| "truthy (PList xs) = (xs \<noteq> [])"
| "truthy (PDatetime d) = True"

section \<open>The directory client library and its connections\<close>

text \<open>
  The library \<^verbatim>\<open>ldap\<close> is the boundary of the module. A \<open>directory\<close> answers the three
  calls that can fail: \<^verbatim>\<open>initialize\<close>, and \<^verbatim>\<open>bind_s\<close> and \<^verbatim>\<open>search_s\<close> per handle. Every call
  of \<^verbatim>\<open>initialize\<close> takes the next handle number, and every call the module makes is
  appended to the log of the \<open>world\<close> under its handle, with its outcome. \<^verbatim>\<open>set_option\<close>
  and \<^verbatim>\<open>unbind\<close> are taken not to raise.
\<close>

datatype raw_attrs =
    is_dict: RawDict (the_dict: "string \<rightharpoonup> bytes list")
  | RawReferral "string list"

type_synonym raw_result = "string option \<times> raw_attrs"

record directory =
  initialize_result :: "string \<Rightarrow> ldap_error option"
  bind_result :: "nat \<Rightarrow> string \<Rightarrow> pyval \<Rightarrow> ldap_error option"
  search_result :: "nat \<Rightarrow> pyval \<Rightarrow> string \<Rightarrow> string list \<Rightarrow> ldap_error + raw_result list"

datatype event =
    Initialize string "ldap_error option"
  | Set_option string pyval
  | Bind_s string pyval "ldap_error option"
  | Search_s pyval string "string list" "ldap_error option"
  | Unbind

record world =
  next_conn :: nat
  events :: "(nat \<times> event) list"

definition log_event :: "nat \<Rightarrow> event \<Rightarrow> world \<Rightarrow> world" where
  "log_event h e w = w\<lparr>events := events w @ [(h, e)]\<rparr>"

record system =
  lib_of :: pylib
  dir_of :: directory
  clock :: int

type_synonym config = "string \<rightharpoonup> pyval"

type_synonym credentials = "string \<rightharpoonup> pyval"

record adconnection =
  conn_config :: config
  ad :: nat

text \<open>\<^verbatim>\<open>ADConnection.__init__\<close>\<close>

definition ADConnection_init :: "system \<Rightarrow> config \<Rightarrow> world \<Rightarrow> (error + adconnection) \<times> world" where
  "ADConnection_init sys cfg w =
     (case cfg ''AD_SERVER'' of
        None \<Rightarrow> (Inl (KeyError ''AD_SERVER''), w)
      | Some server \<Rightarrow>
          (let ad_server_url = ''ldap://'' @ format_str (lib_of sys) server;
               h = next_conn w;
               r = initialize_result (dir_of sys) ad_server_url;
               w0 = log_event h (Initialize ad_server_url r) (w\<lparr>next_conn := Suc h\<rparr>)
           in case r of
                Some e \<Rightarrow> (Inl (LDAPError e), w0)
              | None \<Rightarrow>
                  (let w1 = log_event h (Set_option ''OPT_PROTOCOL_VERSION'' (PInt 3)) w0;
                       w2 = log_event h (Set_option ''OPT_REFERRALS'' (PInt 0)) w1;
                       w3 = (case cfg ''AD_CA_CERT_FILE'' of
                               None \<Rightarrow> w2
                             | Some f \<Rightarrow>
                                 if truthy f
                                 then log_event h (Set_option ''OPT_X_TLS_CACERTFILE'' f) w2
                                 else w2);
                       w4 = (case cfg ''AD_REQUIRE_TLS'' of
                               None \<Rightarrow> log_event h (Set_option ''OPT_X_TLS_DEMAND'' (PInt 1)) w3
                             | Some r \<Rightarrow>
                                 if \<not> truthy r
                                 then log_event h (Set_option ''OPT_X_TLS_DEMAND'' (PInt 0)) w3
                                 else log_event h (Set_option ''OPT_X_TLS_DEMAND'' (PInt 1)) w3)
                   in (Inr \<lparr>conn_config = cfg, ad = h\<rparr>, w4))))"

text \<open>The first statement of \<^verbatim>\<open>ADConnection.bind\<close>: which credentials are used.\<close>

definition bind_credentials :: "config \<Rightarrow> credentials option \<Rightarrow> error + credentials" where
  "bind_credentials cfg credentials =
     (if credentials = None
         \<or> ''username'' \<notin> dom (the credentials)
         \<or> ''password'' \<notin> dom (the credentials)
      then
        (if ''AD_BIND_USERNAME'' \<notin> dom cfg \<or> cfg ''AD_BIND_USERNAME'' = Some PNone
         then Inl (ValueError ''AD_BIND_USERNAME must be set'')
         else if ''AD_BIND_PASSWORD'' \<notin> dom cfg \<or> cfg ''AD_BIND_PASSWORD'' = Some PNone
         then Inl (ValueError ''AD_BIND_PASSWORD must be set'')
         else Inr [''username'' \<mapsto> the (cfg ''AD_BIND_USERNAME''),
                   ''password'' \<mapsto> the (cfg ''AD_BIND_PASSWORD'')])
      else Inr (the credentials))"

text \<open>The second and third statements: the identity sent to the server.
  \<^verbatim>\<open>split\<close> exists on text only; on bytes it exists but refuses a text separator.\<close>

definition bind_username :: "pylib \<Rightarrow> config \<Rightarrow> pyval \<Rightarrow> error + string" where
  "bind_username lib cfg u =
     (case u of
        PStr s \<Rightarrow>
          (let username = last (split_on (CHR 0x5C) s) in
           if CHR ''@'' \<notin> set username \<and> \<not> sublist ''cn='' (str_lower lib username)
           then (case cfg ''AD_DOMAIN'' of
                   None \<Rightarrow> Inl (KeyError ''AD_DOMAIN'')
                 | Some d \<Rightarrow> Inr (username @ ''@'' @ format_str lib d))
           else Inr username)
      | PBytes b \<Rightarrow> Inl TypeError
      | _ \<Rightarrow> Inl AttributeError)"

text \<open>\<^verbatim>\<open>ADConnection.bind\<close>\<close>

definition bind :: "system \<Rightarrow> adconnection \<Rightarrow> credentials option \<Rightarrow> world \<Rightarrow> (error + bool) \<times> world" where
  "bind sys self credentials w =
     (case bind_credentials (conn_config self) credentials of
        Inl e \<Rightarrow> (Inl e, w)
      | Inr creds \<Rightarrow>
          (case bind_username (lib_of sys) (conn_config self) (the (creds ''username'')) of
             Inl e \<Rightarrow> (Inl e, w)
           | Inr username \<Rightarrow>
               (let password = the (creds ''password'');
                    r = bind_result (dir_of sys) (ad self) username password;
                    w' = log_event (ad self) (Bind_s username password r) w
                in case r of
                     Some e \<Rightarrow> (Inl (LDAPError e), w')
                   | None \<Rightarrow> (Inr True, w'))))"

text \<open>\<^verbatim>\<open>ADConnection.unbind\<close>\<close>

definition unbind :: "adconnection \<Rightarrow> world \<Rightarrow> world" where
  "unbind self w = log_event (ad self) Unbind w"

text \<open>\<^verbatim>\<open>connection.ad.search_s(base, scope, filterstr, attrlist)\<close>\<close>

definition search_s ::
  "system \<Rightarrow> adconnection \<Rightarrow> pyval \<Rightarrow> string \<Rightarrow> string list \<Rightarrow> world
     \<Rightarrow> (error + raw_result list) \<times> world" where
  "search_s sys self base filterstr attrlist w =
     (case search_result (dir_of sys) (ad self) base filterstr attrlist of
        Inl e \<Rightarrow> (Inl (LDAPError e), log_event (ad self) (Search_s base filterstr attrlist (Some e)) w)
      | Inr results \<Rightarrow> (Inr results, log_event (ad self) (Search_s base filterstr attrlist None) w))"

section \<open>Result normalizer\<close>

text \<open>
  \<^verbatim>\<open>decode_ldap_results\<close>. The comprehension keeps the entries whose second component is
  a dictionary; the loops then replace every value by its decoding, in place, and an
  attribute that holds one value by that value.
\<close>

fun dict_entries :: "raw_result list \<Rightarrow> (string \<rightharpoonup> bytes list) list" where
  "dict_entries [] = []"
| "dict_entries ((dn, RawDict entry) # results) = entry # dict_entries results"
| "dict_entries ((dn, RawReferral urls) # results) = dict_entries results"

definition decode_value :: "pylib \<Rightarrow> bool \<Rightarrow> bytes \<Rightarrow> pyval" where
  "decode_value lib json_safe b =
     (case utf8_decode lib b of
        Some s \<Rightarrow> PStr s
      | None \<Rightarrow> if json_safe then PStr (b64encode lib b) else PBytes b)"

definition decode_attribute :: "pylib \<Rightarrow> bool \<Rightarrow> bytes list \<Rightarrow> pyval" where
  "decode_attribute lib json_safe vs =
     (let decoded = map (decode_value lib json_safe) vs in
      if length decoded = 1 then hd decoded else PList decoded)"

type_synonym entry = "string \<rightharpoonup> pyval"

definition decode_object :: "pylib \<Rightarrow> bool \<Rightarrow> (string \<rightharpoonup> bytes list) \<Rightarrow> entry" where
  "decode_object lib json_safe ldap_object =
     (\<lambda>attribute. map_option (decode_attribute lib json_safe) (ldap_object attribute))"

definition decode_ldap_results :: "pylib \<Rightarrow> raw_result list \<Rightarrow> bool \<Rightarrow> entry list" where
  "decode_ldap_results lib results json_safe =
     map (decode_object lib json_safe) (dict_entries results)"

section \<open>Sorting by lower case\<close>

text \<open>
  \<^verbatim>\<open>sorted(v, key=lambda dn: dn.lower())\<close>. \<^verbatim>\<open>sorted\<close> iterates over its argument: a list
  gives its elements, text its characters (each a text of length one), bytes its octets
  (integers). The keys are computed first: \<^verbatim>\<open>lower\<close> exists on text and on bytes only.
  The sort is stable; comparing a text key with a bytes key is a \<^verbatim>\<open>TypeError\<close>.
\<close>

fun py_iter :: "pyval \<Rightarrow> error + pyval list" where
  "py_iter (PList xs) = Inr xs"
| "py_iter (PStr s) = Inr (map (\<lambda>c. PStr [c]) s)"
| "py_iter (PBytes b) = Inr (map (\<lambda>x. PInt (of_char x)) b)"
| "py_iter v = Inl TypeError"

fun is_text :: "pyval \<Rightarrow> bool" where
  "is_text (PStr s) = True"
| "is_text v = False"

fun is_bytes :: "pyval \<Rightarrow> bool" where
  "is_bytes (PBytes b) = True"
| "is_bytes v = False"

fun the_text :: "pyval \<Rightarrow> string" where
  "the_text (PStr s) = s"
| "the_text v = []"

fun the_bytes :: "pyval \<Rightarrow> bytes" where
  "the_bytes (PBytes b) = b"
| "the_bytes v = []"

definition py_sorted_lower :: "pylib \<Rightarrow> pyval \<Rightarrow> error + pyval" where
  "py_sorted_lower lib v =
     (case py_iter v of
        Inl e \<Rightarrow> Inl e
      | Inr items \<Rightarrow>
          if list_ex (\<lambda>x. \<not> is_text x \<and> \<not> is_bytes x) items then Inl AttributeError
          else if list_all is_text items
          then Inr (PList (sort_key (\<lambda>x. str_lower lib (the_text x)) items))
          else if list_all is_bytes items
          then Inr (PList (sort_key (\<lambda>x. bytes_lower lib (the_bytes x)) items))
          else Inl TypeError)"

text \<open>\<^verbatim>\<open>if k in d.keys(): d[k] = f(d[k])\<close>\<close>

definition update_attr :: "string \<Rightarrow> (pyval \<Rightarrow> error + pyval) \<Rightarrow> entry \<Rightarrow> error + entry" where
  "update_attr k f d =
     (case d k of
        None \<Rightarrow> Inr d
      | Some v \<Rightarrow> (case f v of Inl e \<Rightarrow> Inl e | Inr v' \<Rightarrow> Inr (d(k \<mapsto> v'))))"

section \<open>Directory client\<close>

definition EasyAD_user_attributes :: "string list" where
  "EasyAD_user_attributes =
     [''businessCategory'', ''businessSegment'', ''businessSegmentDescription'',
      ''businessUnitDescriptionc'', ''cn'', ''co'', ''company'', ''costCenter'',
      ''countryCode'', ''department'', ''departmentNumber'', ''displayName'',
      ''distinguishedName'', ''employeeClass'', ''employeeNumber'', ''employeeStatus'',
      ''employeeType'', ''enterpriseBusinessUnitDescription'', ''givenName'', ''hireDate'',
      ''homeDirectory'', ''homeDrive'', ''iamFullName'', ''ipPhone'',
      ''jobFamilyDescription'', ''jobFunctionDescription'', ''jobTrack'', ''l'',
      ''LastLogonTimestamp'', ''lockoutTime'', ''mail'', ''mailNickname'', ''manager'',
      ''memberOf'', ''phonebookVisibility'', ''physicalDeliveryOfficeName'', ''postalCode'',
      ''prefFirstName'', ''pwdLastSet'', ''rehireDate'', ''roomNumber'', ''sAMAccountName'',
      ''scriptPath'', ''showInAddressBook'', ''siteCode'', ''siteName'', ''sn'', ''st'',
      ''streetAddress'', ''telephoneNumber'', ''thumbnailPhoto'', ''title'', ''uid'',
      ''userAccountControl'', ''userPrincipalName'']"

definition EasyAD_group_attributes :: "string list" where
  "EasyAD_group_attributes = [''cn'', ''distinguishedName'', ''managedBy'', ''member'', ''name'']"

record easyad =
  config :: config
  user_attributes :: "string list"
  group_attributes :: "string list"

text \<open>The base DN that \<^verbatim>\<open>EasyAD.__init__\<close> derives from the domain.\<close>

definition derive_base_dn :: "string \<Rightarrow> string" where
  "derive_base_dn domain =
     rstrip (CHR '','')
       (foldl (\<lambda>base_dn part. base_dn @ ''dc='' @ part @ '','') [] (split_on (CHR ''.'') domain))"

text \<open>\<^verbatim>\<open>EasyAD.__init__\<close>. The test of the override reads the key \<^verbatim>\<open>"BASE_DN"\<close>.\<close>

definition EasyAD_init :: "config \<Rightarrow> error + easyad" where
  "EasyAD_init cfg =
     (case cfg ''AD_DOMAIN'' of
        None \<Rightarrow> Inl (KeyError ''AD_DOMAIN'')
      | Some (PStr domain) \<Rightarrow>
          (let base_dn = derive_base_dn domain;
               derived = \<lparr>config = cfg(''AD_BASE_DN'' \<mapsto> PStr base_dn),
                          user_attributes = EasyAD_user_attributes,
                          group_attributes = EasyAD_group_attributes\<rparr>;
               kept = \<lparr>config = cfg,
                       user_attributes = EasyAD_user_attributes,
                       group_attributes = EasyAD_group_attributes\<rparr>
           in if ''AD_BASE_DN'' \<notin> dom cfg then Inr derived
              else (case cfg ''BASE_DN'' of
                      None \<Rightarrow> Inl (KeyError ''BASE_DN'')
                    | Some PNone \<Rightarrow> Inr derived
                    | Some v \<Rightarrow> Inr kept))
      | Some (PBytes b) \<Rightarrow> Inl TypeError
      | Some v \<Rightarrow> Inl AttributeError)"

text \<open>\<^verbatim>\<open>if base is None: base = self.config["AD_BASE_DN"]\<close>\<close>

definition default_base :: "easyad \<Rightarrow> pyval option \<Rightarrow> error + pyval" where
  "default_base self base =
     (case base of
        Some b \<Rightarrow> Inr b
      | None \<Rightarrow>
          (case config self ''AD_BASE_DN'' of
             None \<Rightarrow> Inl (KeyError ''AD_BASE_DN'')
           | Some b \<Rightarrow> Inr b))"

text \<open>Lines 330 to 347 of \<^verbatim>\<open>get_user\<close>: the rules applied to the one entry found. The
  call of \<^verbatim>\<open>_get_last_logon\<close> does not pass \<open>json_safe\<close>, which is then \<open>False\<close>.\<close>

definition decode_user_account_control :: "pylib \<Rightarrow> entry \<Rightarrow> error + entry" where
  "decode_user_account_control lib user =
     (case user ''userAccountControl'' of
        None \<Rightarrow> Inr user
      | Some v \<Rightarrow>
          (case py_int lib v of
             Inl e \<Rightarrow> Inl e
           | Inr uac \<Rightarrow>
               Inr (user(''userAccountControl'' \<mapsto> PInt uac,
                         ''disabled'' \<mapsto> PBool (uac AND 2 \<noteq> 0),
                         ''passwordExpired'' \<mapsto> PBool (uac AND 8388608 \<noteq> 0),
                         ''passwordNeverExpires'' \<mapsto> PBool (uac AND 65536 \<noteq> 0),
                         ''smartcardRequired'' \<mapsto> PBool (uac AND 262144 \<noteq> 0)))))"

definition enhance_user :: "system \<Rightarrow> bool \<Rightarrow> entry \<Rightarrow> error + entry" where
  "enhance_user sys json_safe user =
     (case update_attr ''memberOf'' (py_sorted_lower (lib_of sys)) user of
        Inl e \<Rightarrow> Inl e
      | Inr u1 \<Rightarrow>
     (case update_attr ''showInAddressBook'' (py_sorted_lower (lib_of sys)) u1 of
        Inl e \<Rightarrow> Inl e
      | Inr u2 \<Rightarrow>
     (case update_attr ''lastLogonTimestamp''
             (\<lambda>v. get_last_logon (lib_of sys) (clock sys) v False) u2 of
        Inl e \<Rightarrow> Inl e
      | Inr u3 \<Rightarrow>
     (case update_attr ''lockoutTime''
             (\<lambda>v. convert_ad_timestamp (lib_of sys) v json_safe ''%x %X'') u3 of
        Inl e \<Rightarrow> Inl e
      | Inr u4 \<Rightarrow>
     (case update_attr ''pwdLastSet''
             (\<lambda>v. convert_ad_timestamp (lib_of sys) v json_safe ''%x %X'') u4 of
        Inl e \<Rightarrow> Inl e
      | Inr u5 \<Rightarrow> decode_user_account_control (lib_of sys) u5)))))"

text \<open>The body of the \<^verbatim>\<open>try\<close> statement of \<^verbatim>\<open>get_user\<close>.\<close>

definition get_user_try ::
  "system \<Rightarrow> adconnection \<Rightarrow> credentials option \<Rightarrow> pyval \<Rightarrow> string \<Rightarrow> string list \<Rightarrow> bool
     \<Rightarrow> world \<Rightarrow> (error + entry) \<times> world" where
  "get_user_try sys connection credentials base filter_string attributes json_safe w =
     (case bind sys connection credentials w of
        (Inl e, w1) \<Rightarrow> (Inl e, w1)
      | (Inr ok, w1) \<Rightarrow>
          (case search_s sys connection base filter_string attributes w1 of
             (Inl e, w2) \<Rightarrow> (Inl e, w2)
           | (Inr raw, w2) \<Rightarrow>
               (let results = decode_ldap_results (lib_of sys) raw json_safe in
                if length results = 0 then (Inl (ValueError ''No such user''), w2)
                else if length results > 1
                then (Inl (ValueError ''The query returned more than one result''), w2)
                else (enhance_user sys json_safe (results ! 0), w2))))"

text \<open>\<^verbatim>\<open>EasyAD.get_user\<close>: the \<^verbatim>\<open>finally\<close> clause runs \<^verbatim>\<open>unbind\<close> after the body, whatever the
  body's outcome.\<close>

definition get_user ::
  "system \<Rightarrow> easyad \<Rightarrow> string \<Rightarrow> pyval option \<Rightarrow> credentials option \<Rightarrow> string list option
     \<Rightarrow> bool \<Rightarrow> world \<Rightarrow> (error + entry) \<times> world" where
  "get_user sys self user_string base credentials attributes json_safe w =
     (case default_base self base of
        Inl e \<Rightarrow> (Inl e, w)
      | Inr base' \<Rightarrow>
          (let attributes' = (case attributes of None \<Rightarrow> user_attributes self | Some a \<Rightarrow> a);
               escaped = escape_filter_chars (lib_of sys) user_string;
               filter_string =
                 ''(&(objectClass=user)(|(userPrincipalName='' @ escaped
                   @ '')(sAMAccountName='' @ escaped @ '')(mail='' @ escaped
                   @ '')(distinguishedName='' @ escaped @ '')))''
           in case ADConnection_init sys (config self) w of
                (Inl e, w1) \<Rightarrow> (Inl e, w1)
              | (Inr connection, w1) \<Rightarrow>
                  (case get_user_try sys connection credentials base' filter_string
                          attributes' json_safe w1 of
                     (r, w2) \<Rightarrow> (r, unbind connection w2))))"



text \<open>The body of the \<^verbatim>\<open>try\<close> statement of \<^verbatim>\<open>get_group\<close>.\<close>

definition get_group_try ::
  "system \<Rightarrow> adconnection \<Rightarrow> credentials option \<Rightarrow> pyval \<Rightarrow> string \<Rightarrow> string list \<Rightarrow> bool
     \<Rightarrow> world \<Rightarrow> (error + entry list) \<times> world" where
  "get_group_try sys connection credentials base group_filter attributes json_safe w =
     (case bind sys connection credentials w of
        (Inl e, w1) \<Rightarrow> (Inl e, w1)
      | (Inr ok, w1) \<Rightarrow>
          (case search_s sys connection base group_filter attributes w1 of
             (Inl e, w2) \<Rightarrow> (Inl e, w2)
           | (Inr raw, w2) \<Rightarrow>
               (let results = decode_ldap_results (lib_of sys) raw json_safe in
                if length results = 0 then (Inl (ValueError ''No such group''), w2)
                else if length results > 1
                then (Inl (ValueError ''The query returned more than one result''), w2)
                else (Inr results, w2))))"

text \<open>\<^verbatim>\<open>EasyAD.get_group\<close>: the member list is sorted after the connection is released.\<close>

definition get_group ::
  "system \<Rightarrow> easyad \<Rightarrow> string \<Rightarrow> pyval option \<Rightarrow> credentials option \<Rightarrow> string list option
     \<Rightarrow> bool \<Rightarrow> world \<Rightarrow> (error + entry) \<times> world" where
  "get_group sys self group_string base credentials attributes json_safe w =
     (case default_base self base of
        Inl e \<Rightarrow> (Inl e, w)
      | Inr base' \<Rightarrow>
          (let attributes' = (case attributes of None \<Rightarrow> group_attributes self | Some a \<Rightarrow> a);
               escaped = escape_filter_chars (lib_of sys) group_string;
               group_filter =
                 ''(&(objectClass=Group)(|(cn='' @ escaped
                   @ '')(distinguishedName='' @ escaped @ '')))''
           in case ADConnection_init sys (config self) w of
                (Inl e, w1) \<Rightarrow> (Inl e, w1)
              | (Inr connection, w1) \<Rightarrow>
                  (case get_group_try sys connection credentials base' group_filter
                          attributes' json_safe w1 of
                     (Inl e, w2) \<Rightarrow> (Inl e, unbind connection w2)
                   | (Inr results, w2) \<Rightarrow>
                       (update_attr ''member'' (py_sorted_lower (lib_of sys)) (results ! 0),
                        unbind connection w2))))"

text \<open>What \<^verbatim>\<open>resolve_user_dn\<close> and \<^verbatim>\<open>resolve_group_dn\<close> are given: a dictionary or another
  value.\<close>

datatype ref = RefDict entry | RefVal pyval

definition distinguished_name :: "entry \<Rightarrow> error + pyval" where
  "distinguished_name d =
     (case d ''distinguishedName'' of
        None \<Rightarrow> Inl (KeyError ''distinguishedName'')
      | Some v \<Rightarrow> Inr v)"

text \<open>\<^verbatim>\<open>EasyAD.resolve_user_dn\<close>\<close>

definition resolve_user_dn ::
  "system \<Rightarrow> easyad \<Rightarrow> ref \<Rightarrow> pyval option \<Rightarrow> credentials option \<Rightarrow> bool \<Rightarrow> world
     \<Rightarrow> (error + pyval) \<times> world" where
  "resolve_user_dn sys self user base credentials json_safe w =
     (case user of
        RefDict d \<Rightarrow> (distinguished_name d, w)
      | RefVal (PStr s) \<Rightarrow>
          if \<not> prefix ''cn='' (str_lower (lib_of sys) s)
          then (case get_user sys self s base credentials None json_safe w of
                  (Inl e, w') \<Rightarrow> (Inl e, w')
                | (Inr u, w') \<Rightarrow> (distinguished_name u, w'))
          else (Inr (PStr s), w)
      | RefVal v \<Rightarrow> (Inl (ValueError ''User passed as an unsupported data type''), w))"

text \<open>\<^verbatim>\<open>EasyAD.resolve_group_dn\<close>\<close>

definition resolve_group_dn ::
  "system \<Rightarrow> easyad \<Rightarrow> ref \<Rightarrow> pyval option \<Rightarrow> credentials option \<Rightarrow> bool \<Rightarrow> world
     \<Rightarrow> (error + pyval) \<times> world" where
  "resolve_group_dn sys self grp base credentials json_safe w =
     (case grp of
        RefDict d \<Rightarrow> (distinguished_name d, w)
      | RefVal (PStr s) \<Rightarrow>
          if \<not> prefix ''cn='' (str_lower (lib_of sys) s)
          then (case get_group sys self s base credentials None json_safe w of
                  (Inl e, w') \<Rightarrow> (Inl e, w')
                | (Inr g, w') \<Rightarrow> (distinguished_name g, w'))
          else (Inr (PStr s), w)
      | RefVal v \<Rightarrow> (Inl (ValueError ''Group passed as an unsupported data type''), w))"

text \<open>\<^verbatim>\<open>escape_filter_chars\<close> on a value: the library calls \<^verbatim>\<open>replace\<close> with text arguments,
  which bytes refuse and other values do not have.\<close>

fun escape_value :: "pylib \<Rightarrow> pyval \<Rightarrow> error + string" where
  "escape_value lib (PStr s) = Inr (escape_filter_chars lib s)"
| "escape_value lib (PBytes b) = Inl TypeError"
| "escape_value lib v = Inl AttributeError"

text \<open>\<^verbatim>\<open>map(lambda x: x["distinguishedName"], entries)\<close>\<close>

fun distinguished_names :: "entry list \<Rightarrow> error + pyval list" where
  "distinguished_names [] = Inr []"
| "distinguished_names (x # xs) =
     (case distinguished_name x of
        Inl e \<Rightarrow> Inl e
      | Inr v \<Rightarrow> (case distinguished_names xs of Inl e \<Rightarrow> Inl e | Inr vs \<Rightarrow> Inr (v # vs)))"

text \<open>The body of the \<^verbatim>\<open>try\<close> statement of \<^verbatim>\<open>get_all_user_groups\<close> and of
  \<^verbatim>\<open>get_all_users_in_group\<close>, which are the same text.\<close>

definition search_dns_try ::
  "system \<Rightarrow> adconnection \<Rightarrow> credentials option \<Rightarrow> pyval \<Rightarrow> string \<Rightarrow> bool
     \<Rightarrow> world \<Rightarrow> (error + pyval) \<times> world" where
  "search_dns_try sys connection credentials base filter_string json_safe w =
     (case bind sys connection credentials w of
        (Inl e, w1) \<Rightarrow> (Inl e, w1)
      | (Inr ok, w1) \<Rightarrow>
          (case search_s sys connection base filter_string [''distinguishedName''] w1 of
             (Inl e, w2) \<Rightarrow> (Inl e, w2)
           | (Inr raw, w2) \<Rightarrow>
               (case distinguished_names (decode_ldap_results (lib_of sys) raw json_safe) of
                  Inl e \<Rightarrow> (Inl e, w2)
                | Inr dns \<Rightarrow> (py_sorted_lower (lib_of sys) (PList dns), w2))))"

text \<open>\<^verbatim>\<open>EasyAD.get_all_user_groups\<close>: the user is resolved with the defaults of
  \<^verbatim>\<open>resolve_user_dn\<close>, not with the base and the credentials of the call.\<close>

definition get_all_user_groups ::
  "system \<Rightarrow> easyad \<Rightarrow> ref \<Rightarrow> pyval option \<Rightarrow> credentials option \<Rightarrow> bool \<Rightarrow> world
     \<Rightarrow> (error + pyval) \<times> world" where
  "get_all_user_groups sys self user base credentials json_safe w =
     (case resolve_user_dn sys self user None None False w of
        (Inl e, w1) \<Rightarrow> (Inl e, w1)
      | (Inr user_dn, w1) \<Rightarrow>
          (case default_base self base of
             Inl e \<Rightarrow> (Inl e, w1)
           | Inr base' \<Rightarrow>
               (case escape_value (lib_of sys) user_dn of
                  Inl e \<Rightarrow> (Inl e, w1)
                | Inr escaped \<Rightarrow>
                    (let filter_string = ''(member:1.2.840.113556.1.4.1941:='' @ escaped @ '')''
                     in case ADConnection_init sys (config self) w1 of
                          (Inl e, w2) \<Rightarrow> (Inl e, w2)
                        | (Inr connection, w2) \<Rightarrow>
                            (case search_dns_try sys connection credentials base'
                                    filter_string json_safe w2 of
                               (r, w3) \<Rightarrow> (r, unbind connection w3))))))"

text \<open>\<^verbatim>\<open>EasyAD.get_all_users_in_group\<close>\<close>

definition get_all_users_in_group ::
  "system \<Rightarrow> easyad \<Rightarrow> ref \<Rightarrow> pyval option \<Rightarrow> credentials option \<Rightarrow> bool \<Rightarrow> world
     \<Rightarrow> (error + pyval) \<times> world" where
  "get_all_users_in_group sys self grp base credentials json_safe w =
     (case resolve_group_dn sys self grp None None False w of
        (Inl e, w1) \<Rightarrow> (Inl e, w1)
      | (Inr group_dn, w1) \<Rightarrow>
          (case default_base self base of
             Inl e \<Rightarrow> (Inl e, w1)
           | Inr base' \<Rightarrow>
               (case escape_value (lib_of sys) group_dn of
                  Inl e \<Rightarrow> (Inl e, w1)
                | Inr escaped \<Rightarrow>
                    (let filter_string =
                           ''(&(objectClass=user)(memberof:1.2.840.113556.1.4.1941:=''
                             @ escaped @ ''))''
                     in case ADConnection_init sys (config self) w1 of
                          (Inl e, w2) \<Rightarrow> (Inl e, w2)
                        | (Inr connection, w2) \<Rightarrow>
                            (case search_dns_try sys connection credentials base'
                                    filter_string json_safe w2 of
                               (r, w3) \<Rightarrow> (r, unbind connection w3))))))"



section \<open>Reading the log\<close>

text \<open>The calls that a run from \<open>w\<close> to \<open>w'\<close> appended.\<close>

definition new_events :: "world \<Rightarrow> world \<Rightarrow> (nat \<times> event) list" where
  "new_events w w' = drop (length (events w)) (events w')"

text \<open>A call of the library that raised the error \<open>e\<close>.\<close>

fun reports :: "ldap_error \<Rightarrow> event \<Rightarrow> bool" where
  "reports e (Initialize url r) = (r = Some e)"
| "reports e (Bind_s username password r) = (r = Some e)"
| "reports e (Search_s base filterstr attrlist r) = (r = Some e)"
| "reports e (Set_option name v) = False"
| "reports e Unbind = False"

definition reported :: "ldap_error \<Rightarrow> (nat \<times> event) list \<Rightarrow> bool" where
  "reported e evs = list_ex (\<lambda>x. reports e (snd x)) evs"

text \<open>A connection was opened under the handle \<open>h\<close>: \<^verbatim>\<open>initialize\<close> returned.\<close>

fun opens :: "event \<Rightarrow> bool" where
  "opens (Initialize url r) = (r = None)"
| "opens ev = False"

definition opened :: "nat \<Rightarrow> (nat \<times> event) list \<Rightarrow> bool" where
  "opened h evs = list_ex (\<lambda>x. fst x = h \<and> opens (snd x)) evs"

definition unbind_calls :: "nat \<Rightarrow> (nat \<times> event) list \<Rightarrow> nat" where
  "unbind_calls h evs = length (filter (\<lambda>x. x = (h, Unbind)) evs)"

text \<open>
  Every connection that the run opened was released: \<^verbatim>\<open>unbind\<close> was called once on each
  handle that the run opened and on no other, and it is the last call on that handle.
\<close>

definition released :: "world \<Rightarrow> world \<Rightarrow> bool" where
  "released w w' =
     (events w' = events w @ new_events w w' \<and>
      (\<forall>h. unbind_calls h (new_events w w') = (if opened h (new_events w w') then 1 else 0)) \<and>
      (\<forall>h. opened h (new_events w w') \<longrightarrow>
         last (filter (\<lambda>x. fst x = h) (new_events w w')) = (h, Unbind)))"


text \<open>
  The invariant of an operation: it only appends to the log, under handles it took;
  it released what it opened; and it raises an error of the library exactly when the
  library reported that error.
\<close>

definition run_ok :: "world \<Rightarrow> (error + 'a) \<times> world \<Rightarrow> bool" where
  "run_ok w run =
     (next_conn w \<le> next_conn (snd run) \<and>
      released w (snd run) \<and>
      list_all (\<lambda>x. next_conn w \<le> fst x \<and> fst x < next_conn (snd run)) (new_events w (snd run)) \<and>
      (\<forall>e. reported e (new_events w (snd run)) = (fst run = Inl (LDAPError e))))"

text \<open>The invariant of the body of a \<^verbatim>\<open>try\<close> statement, on the handle \<open>h\<close> of its connection:
  it neither opens nor releases.\<close>

definition body_ok :: "nat \<Rightarrow> world \<Rightarrow> (error + 'a) \<times> world \<Rightarrow> bool" where
  "body_ok h w run =
     (next_conn (snd run) = next_conn w \<and>
      events (snd run) = events w @ new_events w (snd run) \<and>
      list_all (\<lambda>x. fst x = h \<and> \<not> opens (snd x) \<and> snd x \<noteq> Unbind) (new_events w (snd run)) \<and>
      (\<forall>e. reported e (new_events w (snd run)) = (fst run = Inl (LDAPError e))))"

section \<open>A library and a directory for runs on concrete inputs\<close>

text \<open>
  The properties below hold for every library record and every directory. To run the
  model on a concrete input, \<open>ascii_lib\<close> is a library for ASCII text only: lower case of
  the letters A to Z, decoding of octets below 128, base64, decimal integers and the
  filter escapes of the LDAP library. On ASCII input its functions agree with Python's.
  An octet of 128 or more fails to decode in \<open>ascii_lib\<close>, as an ill-formed sequence does
  in Python; Python decodes the well-formed sequences of several octets, to text that
  is not ASCII, and no run below holds such an octet. Its \<open>strftime\<close> and \<open>repr\<close> are
  stand-ins: the format between angle brackets, and a question mark. The arithmetic of
  timestamps is not a part of the library: it is computed by the definitions above.
  \<open>fake_directory\<close> accepts the password \<open>secret\<close>, rejects any other with
  \<^verbatim>\<open>INVALID_CREDENTIALS\<close>, and answers every search with the answer it is given.
\<close>

fun ascii_lower_char :: "char \<Rightarrow> char" where
  "ascii_lower_char (Char b0 b1 b2 b3 b4 b5 b6 b7) =
     (if CHR ''A'' \<le> Char b0 b1 b2 b3 b4 b5 b6 b7 \<and> Char b0 b1 b2 b3 b4 b5 b6 b7 \<le> CHR ''Z''
      then Char b0 b1 b2 b3 b4 True b6 b7 else Char b0 b1 b2 b3 b4 b5 b6 b7)"

definition ascii_decode :: "bytes \<Rightarrow> string option" where
  "ascii_decode b = (if list_all (\<lambda>c. c < CHR 0x80) b then Some b else None)"

definition digit_value :: "char \<Rightarrow> nat option" where
  "digit_value c = (if CHR ''0'' \<le> c \<and> c \<le> CHR ''9'' then Some (of_char c - 48) else None)"

fun decimal :: "nat \<Rightarrow> string \<Rightarrow> nat option" where
  "decimal acc [] = Some acc"
| "decimal acc (c # cs) =
     (case digit_value c of None \<Rightarrow> None | Some d \<Rightarrow> decimal (10 * acc + d) cs)"

definition parse_int :: "string \<Rightarrow> int option" where
  "parse_int s =
     (case s of
        [] \<Rightarrow> None
      | c # cs \<Rightarrow>
          if c = CHR ''-'' then (if cs = [] then None else map_option (\<lambda>n. - int n) (decimal 0 cs))
          else map_option int (decimal 0 s))"

definition escape_char :: "char \<Rightarrow> string" where
  "escape_char c =
     (if c = CHR 0x5C then CHR 0x5C # ''5c''
      else if c = CHR ''*'' then CHR 0x5C # ''2a''
      else if c = CHR ''('' then CHR 0x5C # ''28''
      else if c = CHR '')'' then CHR 0x5C # ''29''
      else if c = CHR 0x00 then CHR 0x5C # ''00''
      else [c])"

definition b64_alphabet :: string where
  "b64_alphabet = ''ABCDEFGHIJKLMNOPQRSTUVWXYZabcdefghijklmnopqrstuvwxyz0123456789+/''"

fun b64 :: "bytes \<Rightarrow> string" where
  "b64 [] = []"
| "b64 [a] =
     (let n = of_char a * (65536::nat)
      in [b64_alphabet ! (n div 262144), b64_alphabet ! (n div 4096 mod 64)] @ ''=='')"
| "b64 [a, b] =
     (let n = of_char a * (65536::nat) + of_char b * 256
      in [b64_alphabet ! (n div 262144), b64_alphabet ! (n div 4096 mod 64),
          b64_alphabet ! (n div 64 mod 64)] @ ''='')"
| "b64 (a # b # c # rest) =
     (let n = of_char a * (65536::nat) + of_char b * 256 + of_char c
      in [b64_alphabet ! (n div 262144), b64_alphabet ! (n div 4096 mod 64),
          b64_alphabet ! (n div 64 mod 64), b64_alphabet ! (n mod 64)] @ b64 rest)"

definition ascii_lib :: pylib where
  "ascii_lib =
     \<lparr>str_lower = map ascii_lower_char,
      bytes_lower = map ascii_lower_char,
      utf8_decode = ascii_decode,
      b64encode = b64,
      int_of_str = parse_int,
      int_of_bytes = parse_int,
      strftime = (\<lambda>format d. ''<'' @ format @ ''>''),
      escape_filter_chars = (\<lambda>s. concat (map escape_char s)),
      repr = (\<lambda>v. ''?'')\<rparr>"

definition fake_directory :: "(ldap_error + raw_result list) \<Rightarrow> directory" where
  "fake_directory answer =
     \<lparr>initialize_result = (\<lambda>url. None),
      bind_result = (\<lambda>h username password.
         if password = PStr ''secret'' then None else Some INVALID_CREDENTIALS),
      search_result = (\<lambda>h base filterstr attrlist. answer)\<rparr>"

definition fake_system :: "(ldap_error + raw_result list) \<Rightarrow> int \<Rightarrow> system" where
  "fake_system answer now = \<lparr>lib_of = ascii_lib, dir_of = fake_directory answer, clock = now\<rparr>"

definition example_config :: config where
  "example_config =
     [''AD_SERVER'' \<mapsto> PStr ''dc1.example.com'',
      ''AD_DOMAIN'' \<mapsto> PStr ''example.com'',
      ''AD_BIND_USERNAME'' \<mapsto> PStr ''svc'',
      ''AD_BIND_PASSWORD'' \<mapsto> PStr ''secret'']"

text \<open>The client that \<open>EasyAD_init\<close> builds from \<open>example_config\<close>.\<close>

definition example_client :: easyad where
  "example_client =
     \<lparr>config = example_config(''AD_BASE_DN'' \<mapsto> PStr ''dc=example,dc=com''),
      user_attributes = EasyAD_user_attributes,
      group_attributes = EasyAD_group_attributes\<rparr>"

definition world0 :: world where
  "world0 = \<lparr>next_conn = 0, events = []\<rparr>"

section \<open>Properties of the timestamp codec\<close>

lemma epoch_start_value: "epoch_start = 50491123200000000"
  by (simp add: epoch_start_def days_before_year_def us_per_day_def)

lemma datetime_max_value: "datetime_max = 315537897599999999"
  by (simp add: datetime_max_def days_before_year_def us_per_day_def)

subsection \<open>Rounding to an integer\<close>

lemma round_half_even_cases:
  "round_half_even q = \<lfloor>q\<rfloor> \<or> round_half_even q = \<lfloor>q\<rfloor> + 1"
  by (simp add: round_half_even_def Let_def)

lemma round_half_even_of_int [simp]: "round_half_even (of_int n) = n"
  by (simp add: round_half_even_def)

lemma round_half_even_zero [simp]: "round_half_even 0 = 0"
  using round_half_even_of_int [of 0] by simp

lemma round_half_even_numeral [simp]: "round_half_even (numeral n) = numeral n"
  using round_half_even_of_int [of "numeral n"] by simp

lemma round_half_even_error: "\<bar>of_int (round_half_even q) - q\<bar> \<le> 1 / 2"
proof -
  have "of_int \<lfloor>q\<rfloor> \<le> q" "q < of_int \<lfloor>q\<rfloor> + 1" by linarith+
  then show ?thesis
    by (auto simp: round_half_even_def Let_def abs_le_iff)
qed

lemma round_half_even_mono:
  assumes "q1 \<le> q2"
  shows "round_half_even q1 \<le> round_half_even q2"
proof (cases "\<lfloor>q1\<rfloor> = \<lfloor>q2\<rfloor>")
  case True
  then show ?thesis using assms
    by (auto simp: round_half_even_def Let_def)
next
  case False
  with assms have "\<lfloor>q1\<rfloor> < \<lfloor>q2\<rfloor>" by (simp add: floor_mono order.not_eq_order_implies_strict)
  then show ?thesis
    using round_half_even_cases [of q1] round_half_even_cases [of q2] by linarith
qed

lemma round_half_even_minus: "round_half_even (- q) = - round_half_even q"
proof (cases "q \<in> \<int>")
  case True
  then obtain n where "q = of_int n" by (auto elim: Ints_cases)
  then show ?thesis by (simp flip: of_int_minus)
next
  case False
  then have "q \<noteq> of_int \<lfloor>q\<rfloor>" by (metis Ints_of_int)
  then have f: "\<lfloor>- q\<rfloor> = - \<lfloor>q\<rfloor> - 1"
    by (simp add: ceiling_altdef floor_minus)
  have "of_int \<lfloor>q\<rfloor> \<le> q" "q < of_int \<lfloor>q\<rfloor> + 1" by linarith+
  with \<open>q \<noteq> of_int \<lfloor>q\<rfloor>\<close> show ?thesis
    unfolding round_half_even_def Let_def f
    by (auto simp: algebra_simps)
qed

subsection \<open>Rounding to a double\<close>

lemma p2_pos [simp]: "(0::rat) < 2 powi e"
  by (simp add: power_int_def)

lemma p2_add: "(2::rat) powi (a + b) = 2 powi a * 2 powi b"
  by (simp add: power_int_add)

lemma p2_diff: "(2::rat) powi (a - b) = 2 powi a / 2 powi b"
  by (simp add: power_int_diff)

lemma p2_mono: "a \<le> b \<Longrightarrow> (2::rat) powi a \<le> 2 powi b"
  by (rule power_int_increasing) simp_all

lemma p2_strict_mono: "a < b \<Longrightarrow> (2::rat) powi a < 2 powi b"
  by (rule power_int_strict_increasing) simp_all

lemma p2_less_cancel: "(2::rat) powi a < 2 powi b \<Longrightarrow> a < b"
  using p2_mono [of b a] by (cases "a < b") auto

lemma bitlen_bounds_rat:
  assumes "0 < a"
  shows "(2::rat) powi (bitlen a - 1) \<le> of_int a" and "of_int a < (2::rat) powi (bitlen a)"
proof -
  from assms have b1: "1 \<le> bitlen a" by (auto simp: bitlen_alt_def)
  from bitlen_bounds [OF assms] have lo: "2 ^ nat (bitlen a - 1) \<le> a" and hi: "a < 2 ^ nat (bitlen a)"
    by auto
  from lo have "(of_int (2 ^ nat (bitlen a - 1)) :: rat) \<le> of_int a" by (simp only: of_int_le_iff)
  then show "(2::rat) powi (bitlen a - 1) \<le> of_int a" using b1 by (simp add: power_int_def)
  from hi have "(of_int a :: rat) < of_int (2 ^ nat (bitlen a))" by (simp only: of_int_less_iff)
  then show "of_int a < (2::rat) powi (bitlen a)" using b1 by (simp add: power_int_def)
qed

lemma binary_exponent_bounds:
  assumes "q \<noteq> 0"
  shows "2 powi (binary_exponent q) \<le> \<bar>q\<bar>" and "\<bar>q\<bar> < 2 powi (binary_exponent q + 1)"
proof -
  obtain a b where qo: "quotient_of \<bar>q\<bar> = (a, b)" by (cases "quotient_of \<bar>q\<bar>")
  then have b: "0 < b" by (rule quotient_of_denom_pos)
  from qo have q: "\<bar>q\<bar> = of_int a / of_int b" by (rule quotient_of_div)
  from assms have "0 < \<bar>q\<bar>" by simp
  with q b have a: "0 < a" by (simp add: zero_less_divide_iff)
  let ?d = "bitlen a - bitlen b"
  note ba = bitlen_bounds_rat [OF a] and bb = bitlen_bounds_rat [OF b]
  have bpos: "(0::rat) < of_int b" using b by simp
  have up: "\<bar>q\<bar> < 2 powi (?d + 1)"
  proof -
    have "of_int a / of_int b < (2::rat) powi (bitlen a) / of_int b"
      using ba(2) bpos by (simp add: divide_strict_right_mono)
    also have "\<dots> \<le> 2 powi (bitlen a) / 2 powi (bitlen b - 1)"
      using bb(1) by (simp add: frac_le)
    also have "\<dots> = 2 powi (?d + 1)"
      by (simp add: p2_diff [symmetric] algebra_simps)
    finally show ?thesis using q by simp
  qed
  have lo: "2 powi (?d - 1) \<le> \<bar>q\<bar>"
  proof -
    have "(2::rat) powi (?d - 1) = 2 powi (bitlen a - 1) / 2 powi (bitlen b)"
      by (simp add: p2_diff [symmetric] algebra_simps)
    also have "\<dots> \<le> of_int a / 2 powi (bitlen b)"
      using ba(1) by (simp add: divide_right_mono)
    also have "\<dots> \<le> of_int a / of_int b"
      using bb(2) a bpos by (simp add: frac_le)
    finally show ?thesis using q by simp
  qed
  have e: "binary_exponent q = (if 2 powi ?d \<le> \<bar>q\<bar> then ?d else ?d - 1)"
    by (simp add: binary_exponent_def qo Let_def)
  show "2 powi (binary_exponent q) \<le> \<bar>q\<bar>" using lo by (simp add: e)
  show "\<bar>q\<bar> < 2 powi (binary_exponent q + 1)" using up by (auto simp: e)
qed

lemma binary_exponent_minus [simp]: "binary_exponent (- q) = binary_exponent q"
  by (simp add: binary_exponent_def)

lemma binary_exponent_mono:
  assumes "0 < q1" "q1 \<le> q2"
  shows "binary_exponent q1 \<le> binary_exponent q2"
proof -
  have "2 powi (binary_exponent q1) \<le> \<bar>q1\<bar>" using assms by (intro binary_exponent_bounds) simp
  also have "\<dots> \<le> \<bar>q2\<bar>" using assms by simp
  also have "\<dots> < 2 powi (binary_exponent q2 + 1)" using assms by (intro binary_exponent_bounds) simp
  finally have "binary_exponent q1 < binary_exponent q2 + 1" by (rule p2_less_cancel)
  then show ?thesis by simp
qed

lemma round_double_zero [simp]: "round_double 0 = 0"
  by (simp add: round_double_def)

lemma round_double_minus: "round_double (- q) = - round_double q"
  by (simp add: round_double_def Let_def round_half_even_minus)

lemma round_double_bounds_pos:
  assumes "0 < q"
  shows "2 powi (binary_exponent q) \<le> round_double q"
    and "round_double q \<le> 2 powi (binary_exponent q + 1)"
proof -
  let ?e = "binary_exponent q" and ?k = "binary_exponent q - 52"
  let ?s = "q / 2 powi ?k"
  from assms have q0: "q \<noteq> 0" by simp
  from binary_exponent_bounds [OF q0] assms
  have lo: "2 powi ?e \<le> q" and hi: "q < 2 powi (?e + 1)" by simp_all
  have e52: "(2::rat) powi ?e = 2 ^ 52 * 2 powi ?k"
    using p2_add [of 52 ?k] by simp
  have e53: "(2::rat) powi (?e + 1) = 2 ^ 53 * 2 powi ?k"
    using p2_add [of 53 ?k] by (simp add: algebra_simps)
  have s1: "2 ^ 52 \<le> ?s" using lo by (simp add: e52 pos_le_divide_eq)
  have s2: "?s \<le> 2 ^ 53" using hi by (simp add: e53 pos_divide_le_eq)
  have "round_half_even (of_int (2 ^ 52)) \<le> round_half_even ?s"
    using s1 by (intro round_half_even_mono) simp
  then have r1: "(2 ^ 52 :: rat) \<le> of_int (round_half_even ?s)"
    by (simp only: round_half_even_of_int) (metis of_int_le_iff of_int_numeral of_int_power)
  have "round_half_even ?s \<le> round_half_even (of_int (2 ^ 53))"
    using s2 by (intro round_half_even_mono) simp
  then have r2: "of_int (round_half_even ?s) \<le> (2 ^ 53 :: rat)"
    by (simp only: round_half_even_of_int) (metis of_int_le_iff of_int_numeral of_int_power)
  have rd: "round_double q = of_int (round_half_even ?s) * 2 powi ?k"
    using q0 by (simp add: round_double_def Let_def)
  show "2 powi ?e \<le> round_double q"
    unfolding rd e52 using r1 by (simp add: mult_right_mono)
  show "round_double q \<le> 2 powi (?e + 1)"
    unfolding rd e53 using r2 by (simp add: mult_right_mono)
qed

lemma round_double_pos: "0 < q \<Longrightarrow> 0 < round_double q"
  using round_double_bounds_pos(1) [of q] p2_pos [of "binary_exponent q"] by linarith

lemma round_double_mono_pos:
  assumes "0 < q1" "q1 \<le> q2"
  shows "round_double q1 \<le> round_double q2"
proof -
  from assms have q2: "0 < q2" by simp
  have le: "binary_exponent q1 \<le> binary_exponent q2" using assms by (rule binary_exponent_mono)
  show ?thesis
  proof (cases "binary_exponent q1 = binary_exponent q2")
    case True
    let ?k = "binary_exponent q2 - 52"
    have "q1 / 2 powi ?k \<le> q2 / 2 powi ?k" using assms by (simp add: divide_right_mono)
    then have "round_half_even (q1 / 2 powi ?k) \<le> round_half_even (q2 / 2 powi ?k)"
      by (rule round_half_even_mono)
    then have "(of_int (round_half_even (q1 / 2 powi ?k)) :: rat) * 2 powi ?k
        \<le> of_int (round_half_even (q2 / 2 powi ?k)) * 2 powi ?k"
      by (simp add: mult_right_mono)
    then show ?thesis using assms q2 True by (simp add: round_double_def Let_def)
  next
    case False
    with le have "binary_exponent q1 + 1 \<le> binary_exponent q2" by simp
    then have "(2::rat) powi (binary_exponent q1 + 1) \<le> 2 powi (binary_exponent q2)" by (rule p2_mono)
    then show ?thesis
      using round_double_bounds_pos(2) [OF assms(1)] round_double_bounds_pos(1) [OF q2] by linarith
  qed
qed

lemma round_double_mono:
  assumes "q1 \<le> q2"
  shows "round_double q1 \<le> round_double q2"
proof -
  consider "0 < q1" | "q1 \<le> 0" "0 \<le> q2" | "q2 < 0" by linarith
  then show ?thesis
  proof cases
    case 1
    then show ?thesis using assms by (rule round_double_mono_pos)
  next
    case 2
    have "round_double q1 \<le> 0"
      using round_double_pos [of "- q1"] 2(1) by (cases "q1 = 0") (auto simp: round_double_minus)
    moreover have "0 \<le> round_double q2"
      using round_double_pos [of q2] 2(2) by (cases "q2 = 0") auto
    ultimately show ?thesis by simp
  next
    case 3
    then have "round_double (- q2) \<le> round_double (- q1)"
      using assms by (intro round_double_mono_pos) simp_all
    then show ?thesis by (simp add: round_double_minus)
  qed
qed

lemma round_double_error:
  assumes "q \<noteq> 0"
  shows "\<bar>round_double q - q\<bar> \<le> \<bar>q\<bar> / 2 ^ 53"
proof -
  let ?e = "binary_exponent q" and ?k = "binary_exponent q - 52"
  let ?s = "q / 2 powi ?k"
  have rd: "round_double q = of_int (round_half_even ?s) * 2 powi ?k"
    using assms by (simp add: round_double_def Let_def)
  have "round_double q - q = (of_int (round_half_even ?s) - ?s) * 2 powi ?k"
    by (simp add: rd algebra_simps)
  then have "\<bar>round_double q - q\<bar> = \<bar>of_int (round_half_even ?s) - ?s\<bar> * 2 powi ?k"
    by (simp add: abs_mult)
  also have "\<dots> \<le> 1 / 2 * 2 powi ?k"
    using round_half_even_error [of ?s] by (intro mult_right_mono) simp_all
  also have "\<dots> = 2 powi ?e / 2 ^ 53"
    using p2_diff [of ?e 52] by simp
  also have "\<dots> \<le> \<bar>q\<bar> / 2 ^ 53"
    using binary_exponent_bounds(1) [OF assms] by (simp add: divide_right_mono)
  finally show ?thesis .
qed

lemma round_double_of_int:
  assumes "\<bar>n\<bar> < 2 ^ 53"
  shows "round_double (of_int n) = of_int n"
proof (cases "n = 0")
  case True
  then show ?thesis by simp
next
  case False
  let ?q = "of_int n :: rat"
  let ?e = "binary_exponent ?q"
  from False have q0: "?q \<noteq> 0" by simp
  have "2 powi ?e \<le> \<bar>?q\<bar>" using q0 by (rule binary_exponent_bounds)
  also have "\<bar>?q\<bar> < 2 ^ 53"
    using assms by (metis of_int_abs of_int_less_iff of_int_numeral of_int_power)
  finally have "(2::rat) powi ?e < 2 powi 53" by simp
  then have "?e < 53" by (rule p2_less_cancel)
  then have k: "0 \<le> 52 - ?e" by simp
  have "?q / 2 powi (?e - 52) = ?q * 2 powi (52 - ?e)"
    using p2_diff [of 0 "?e - 52"] by (simp add: field_simps power_int_minus)
  also have "\<dots> = of_int (n * 2 ^ nat (52 - ?e))"
    using k by (simp add: power_int_def)
  finally have s: "?q / 2 powi (?e - 52) = of_int (n * 2 ^ nat (52 - ?e))" .
  have "round_double ?q = of_int (n * 2 ^ nat (52 - ?e)) * 2 powi (?e - 52)"
    using q0 unfolding round_double_def Let_def s round_half_even_of_int by simp
  also have "\<dots> = ?q / 2 powi (?e - 52) * 2 powi (?e - 52)"
    by (simp only: s)
  also have "\<dots> = ?q" by simp
  finally show ?thesis .
qed

subsection \<open>The microseconds of a duration\<close>

lemma frac_part_bounds:
  "0 \<le> x \<Longrightarrow> 0 \<le> x - of_int (float_trunc x) \<and> x - of_int (float_trunc x) < 1"
  "x < 0 \<Longrightarrow> - 1 < x - of_int (float_trunc x) \<and> x - of_int (float_trunc x) \<le> 0"
  unfolding float_trunc_def by (simp; linarith)+

lemma round_double_million: "round_double 1000000 = 1000000"
  using round_double_of_int [of 1000000] by simp

lemma micro_part_bounds:
  assumes "0 \<le> f" "f < 1"
  shows "0 \<le> round_half_even (round_double (10 ^ 6 * f))"
    and "round_half_even (round_double (10 ^ 6 * f)) \<le> 10 ^ 6"
proof -
  have "round_double 0 \<le> round_double (10 ^ 6 * f)"
    using assms by (intro round_double_mono) simp
  then have "round_half_even 0 \<le> round_half_even (round_double (10 ^ 6 * f))"
    by (intro round_half_even_mono) simp
  then show "0 \<le> round_half_even (round_double (10 ^ 6 * f))"
    by simp
  have "round_double (10 ^ 6 * f) \<le> round_double (10 ^ 6)"
    using assms by (intro round_double_mono) simp
  then have "round_half_even (round_double (10 ^ 6 * f)) \<le> round_half_even 1000000"
    by (intro round_half_even_mono) (simp add: round_double_million)
  then show "round_half_even (round_double (10 ^ 6 * f)) \<le> 10 ^ 6"
    by simp
qed

lemma micro_part_minus:
  "round_half_even (round_double (10 ^ 6 * (- f))) = - round_half_even (round_double (10 ^ 6 * f))"
  by (simp add: round_double_minus round_half_even_minus)

lemma timedelta_micros_bounds:
  "\<lfloor>x\<rfloor> * 10 ^ 6 \<le> timedelta_micros x \<and> timedelta_micros x \<le> \<lceil>x\<rceil> * 10 ^ 6"
proof -
  let ?f = "x - of_int (float_trunc x)"
  let ?r = "round_half_even (round_double (10 ^ 6 * ?f))"
  have tm: "timedelta_micros x = float_trunc x * 10 ^ 6 + ?r"
    by (simp add: timedelta_micros_def Let_def)
  show ?thesis
  proof (cases "0 \<le> x")
    case True
    then have t: "float_trunc x = \<lfloor>x\<rfloor>" by (simp add: float_trunc_def)
    from frac_part_bounds(1) [OF True] have f: "0 \<le> ?f" "?f < 1" by simp_all
    note r = micro_part_bounds [OF f]
    show ?thesis
    proof (cases "?f = 0")
      case True
      then have "x = of_int \<lfloor>x\<rfloor>" using t by simp
      then have "\<lceil>x\<rceil> = \<lfloor>x\<rfloor>" by (metis ceiling_of_int)
      then show ?thesis using True by (simp add: tm t)
    next
      case False
      then have "x \<noteq> of_int \<lfloor>x\<rfloor>" using t by simp
      then have "\<lceil>x\<rceil> = \<lfloor>x\<rfloor> + 1" by (simp add: ceiling_altdef)
      then show ?thesis using r by (simp add: tm t)
    qed
  next
    case False
    then have neg: "x < 0" by simp
    then have t: "float_trunc x = \<lceil>x\<rceil>" by (simp add: float_trunc_def)
    from frac_part_bounds(2) [OF neg] have f: "0 \<le> - ?f" "- ?f < 1" by simp_all
    from micro_part_bounds [OF f] have r: "- 1000000 \<le> ?r" "?r \<le> 0"
      unfolding micro_part_minus by simp_all
    show ?thesis
    proof (cases "?f = 0")
      case True
      then have "x = of_int \<lceil>x\<rceil>" using t by simp
      then have "\<lfloor>x\<rfloor> = \<lceil>x\<rceil>" by (metis floor_of_int)
      then show ?thesis using True by (simp add: tm t)
    next
      case False
      then have "x \<noteq> of_int \<lceil>x\<rceil>" using t by simp
      then have "x \<noteq> of_int \<lfloor>x\<rfloor>" by (metis ceiling_of_int)
      then have "\<lceil>x\<rceil> = \<lfloor>x\<rfloor> + 1" by (simp add: ceiling_altdef)
      then show ?thesis using r by (simp add: tm t)
    qed
  qed
qed

lemma timedelta_micros_mono:
  assumes "x1 \<le> x2"
  shows "timedelta_micros x1 \<le> timedelta_micros x2"
proof (cases "\<lceil>x1\<rceil> \<le> \<lfloor>x2\<rfloor>")
  case True
  then have "\<lceil>x1\<rceil> * 10 ^ 6 \<le> \<lfloor>x2\<rfloor> * (10 ^ 6 :: int)" by simp
  then show ?thesis
    using timedelta_micros_bounds [of x1] timedelta_micros_bounds [of x2] by linarith
next
  case False
  have fl: "\<lfloor>x1\<rfloor> \<le> \<lfloor>x2\<rfloor>" using assms by (rule floor_mono)
  have "\<lceil>x1\<rceil> \<le> \<lfloor>x1\<rfloor> + 1" by (simp add: ceiling_altdef)
  with False fl have same: "\<lfloor>x2\<rfloor> = \<lfloor>x1\<rfloor>" and c: "\<lceil>x1\<rceil> = \<lfloor>x1\<rfloor> + 1" by linarith+
  show ?thesis
  proof (cases "0 \<le> x1")
    case True
    then have t: "float_trunc x1 = \<lfloor>x1\<rfloor>" "float_trunc x2 = \<lfloor>x1\<rfloor>"
      using assms same by (simp_all add: float_trunc_def)
    have "round_double (10 ^ 6 * (x1 - of_int \<lfloor>x1\<rfloor>)) \<le> round_double (10 ^ 6 * (x2 - of_int \<lfloor>x1\<rfloor>))"
      using assms by (intro round_double_mono) simp
    then have "round_half_even (round_double (10 ^ 6 * (x1 - of_int \<lfloor>x1\<rfloor>)))
        \<le> round_half_even (round_double (10 ^ 6 * (x2 - of_int \<lfloor>x1\<rfloor>)))"
      by (rule round_half_even_mono)
    then show ?thesis by (simp add: timedelta_micros_def Let_def t)
  next
    case False
    then have n1: "x1 < 0" by simp
    have fl_neg: "\<lfloor>x1\<rfloor> + 1 \<le> 0" using n1 by linarith
    have "x2 < of_int \<lfloor>x2\<rfloor> + 1" by linarith
    then have x2le: "x2 < of_int \<lfloor>x1\<rfloor> + 1" using same by simp
    have "of_int \<lfloor>x1\<rfloor> + 1 \<le> (0::rat)" using fl_neg by linarith
    with x2le have n2: "x2 < 0" by linarith
    have x1n: "x1 \<noteq> of_int \<lfloor>x1\<rfloor>"
    proof
      assume "x1 = of_int \<lfloor>x1\<rfloor>"
      then have "\<lceil>x1\<rceil> = \<lfloor>x1\<rfloor>" by (metis ceiling_of_int)
      with c show False by linarith
    qed
    have "x2 \<noteq> of_int \<lfloor>x2\<rfloor>"
    proof
      assume "x2 = of_int \<lfloor>x2\<rfloor>"
      then have e: "x2 = of_int \<lfloor>x1\<rfloor>" by (simp only: same)
      have "of_int \<lfloor>x1\<rfloor> \<le> x1" by (rule of_int_floor_le)
      with e assms have "x1 = of_int \<lfloor>x1\<rfloor>" by linarith
      with x1n show False by (rule notE)
    qed
    then have c2: "\<lceil>x2\<rceil> = \<lfloor>x1\<rfloor> + 1" using same by (simp add: ceiling_altdef)
    have t: "float_trunc x1 = \<lfloor>x1\<rfloor> + 1" "float_trunc x2 = \<lfloor>x1\<rfloor> + 1"
      using n1 n2 c c2 by (simp_all add: float_trunc_def)
    have "round_double (10 ^ 6 * (x1 - of_int (\<lfloor>x1\<rfloor> + 1))) \<le> round_double (10 ^ 6 * (x2 - of_int (\<lfloor>x1\<rfloor> + 1)))"
      using assms by (intro round_double_mono) simp
    then have "round_half_even (round_double (10 ^ 6 * (x1 - of_int (\<lfloor>x1\<rfloor> + 1))))
        \<le> round_half_even (round_double (10 ^ 6 * (x2 - of_int (\<lfloor>x1\<rfloor> + 1))))"
      by (rule round_half_even_mono)
    then show ?thesis by (simp add: timedelta_micros_def Let_def t)
  qed
qed

lemma timedelta_micros_error:
  "\<bar>of_int (timedelta_micros x) - 10 ^ 6 * x\<bar> \<le> 1 / 2 + 10 ^ 6 / 2 ^ 53"
proof -
  let ?f = "x - of_int (float_trunc x)"
  let ?y = "round_double (10 ^ 6 * ?f)"
  have f1: "\<bar>?f\<bar> \<le> 1"
    using frac_part_bounds(1) [of x] frac_part_bounds(2) [of x] by (cases "0 \<le> x") auto
  have ye: "\<bar>?y - 10 ^ 6 * ?f\<bar> \<le> 10 ^ 6 / 2 ^ 53"
  proof (cases "?f = 0")
    case True
    then show ?thesis by simp
  next
    case False
    then have "10 ^ 6 * ?f \<noteq> 0" by simp
    then have "\<bar>?y - 10 ^ 6 * ?f\<bar> \<le> \<bar>10 ^ 6 * ?f\<bar> / 2 ^ 53" by (rule round_double_error)
    also have "\<dots> \<le> 10 ^ 6 / 2 ^ 53"
      using f1 by (simp add: abs_mult divide_right_mono)
    finally show ?thesis .
  qed
  have "of_int (timedelta_micros x) - 10 ^ 6 * x
      = (of_int (round_half_even ?y) - ?y) + (?y - 10 ^ 6 * ?f)"
    by (simp add: timedelta_micros_def Let_def algebra_simps)
  then have "\<bar>of_int (timedelta_micros x) - 10 ^ 6 * x\<bar>
      \<le> \<bar>of_int (round_half_even ?y) - ?y\<bar> + \<bar>?y - 10 ^ 6 * ?f\<bar>"
    by (simp only: abs_triangle_ineq)
  then show ?thesis using round_half_even_error [of ?y] ye by linarith
qed

lemma timedelta_micros_of_int: "timedelta_micros (of_int n) = n * 10 ^ 6"
  by (simp add: timedelta_micros_def float_trunc_def)

subsection \<open>The conversion\<close>

lemma seconds_since_epoch_whole:
  assumes "\<bar>n\<bar> < 2 ^ 53"
  shows "seconds_since_epoch (n * 10 ^ 7) = Inr (of_int n)"
proof -
  have q: "(of_int (n * 10 ^ 7) :: rat) / 10 ^ 7 = of_int n" by simp
  have "\<bar>of_int n :: rat\<bar> < 2 ^ 53"
    using assms by (metis of_int_abs of_int_less_iff of_int_numeral of_int_power)
  also have "(2::rat) ^ 53 \<le> 2 ^ 1024" by (rule power_increasing) simp_all
  finally have "\<not> 2 ^ 1024 \<le> \<bar>of_int n :: rat\<bar>" by simp
  then show ?thesis
    by (simp only: seconds_since_epoch_def q round_double_of_int [OF assms] Let_def if_False)
qed

lemma timedelta_micros_overflow:
  assumes "2 ^ 1024 \<le> \<bar>x\<bar>"
  shows "\<not> (0 \<le> epoch_start + timedelta_micros x \<and> epoch_start + timedelta_micros x \<le> datetime_max)"
proof -
  have "(2::rat) ^ 64 \<le> 2 ^ 1024" by (rule power_increasing) simp_all
  with assms have "of_int (2 ^ 64) \<le> \<bar>x\<bar>" by simp
  then consider "of_int (2 ^ 64) \<le> x" | "x \<le> of_int (- (2 ^ 64))" by linarith
  then show ?thesis
  proof cases
    case 1
    then have "2 ^ 64 \<le> \<lfloor>x\<rfloor>" by (simp only: le_floor_iff)
    then have "2 ^ 64 * 10 ^ 6 \<le> \<lfloor>x\<rfloor> * (10 ^ 6 :: int)" by (rule mult_right_mono) simp
    with timedelta_micros_bounds [of x] have "2 ^ 64 * 10 ^ 6 \<le> timedelta_micros x" by linarith
    then show ?thesis by (simp add: epoch_start_value datetime_max_value)
  next
    case 2
    then have "\<lceil>x\<rceil> \<le> - (2 ^ 64)" by (simp only: ceiling_le_iff)
    then have "\<lceil>x\<rceil> * (10 ^ 6 :: int) \<le> - (2 ^ 64) * 10 ^ 6" by (rule mult_right_mono) simp
    with timedelta_micros_bounds [of x] have "timedelta_micros x \<le> - (2 ^ 64) * 10 ^ 6" by linarith
    then show ?thesis by (simp add: epoch_start_value datetime_max_value)
  qed
qed

lemma datetime_range_timedelta:
  "0 \<le> epoch_start + us \<Longrightarrow> epoch_start + us \<le> datetime_max \<Longrightarrow>
   - 999999999 * us_per_day \<le> us \<and> us < 1000000000 * us_per_day"
  by (simp add: epoch_start_value datetime_max_value us_per_day_def)

lemma convert_ad_timestamp_micros:
  assumes "py_int lib x = Inr t" "t \<noteq> 0"
  shows "convert_ad_timestamp lib x js fmt =
     (let us = timedelta_micros (round_double (of_int t / 10 ^ 7)) in
      if 0 \<le> epoch_start + us \<and> epoch_start + us \<le> datetime_max
      then (if js then Inr (PStr (strftime lib fmt (epoch_start + us)))
            else Inr (PDatetime (epoch_start + us)))
      else Inl OverflowError)"
proof -
  let ?x = "round_double (of_int t / 10 ^ 7)"
  let ?us = "timedelta_micros ?x"
  show ?thesis
  proof (cases "0 \<le> epoch_start + ?us \<and> epoch_start + ?us \<le> datetime_max")
    case True
    then have fin: "\<not> 2 ^ 1024 \<le> \<bar>?x\<bar>" using timedelta_micros_overflow [of ?x] by blast
    from True have "- 999999999 * us_per_day \<le> ?us \<and> ?us < 1000000000 * us_per_day"
      using datetime_range_timedelta [of ?us] by blast
    then show ?thesis using assms True fin
      by (simp add: convert_ad_timestamp_def seconds_since_epoch_def timedelta_seconds_def
            datetime_add_def Let_def)
  next
    case False
    then show ?thesis using assms
      by (auto simp: convert_ad_timestamp_def seconds_since_epoch_def timedelta_seconds_def
            datetime_add_def Let_def)
  qed
qed

lemma convert_ad_timestamp_whole:
  assumes x: "py_int lib x = Inr (n * 10 ^ 7)" and n: "n \<noteq> 0"
    and lo: "0 \<le> epoch_start + n * 10 ^ 6" and hi: "epoch_start + n * 10 ^ 6 \<le> datetime_max"
  shows "convert_ad_timestamp lib x False fmt = Inr (PDatetime (epoch_start + n * 10 ^ 6))"
proof -
  from lo hi have "\<bar>n\<bar> < 2 ^ 53" by (simp add: epoch_start_value datetime_max_value)
  then have r: "round_double (of_int n) = of_int n" by (rule round_double_of_int)
  have q: "(of_int (n * 10 ^ 7) :: rat) / 10 ^ 7 = of_int n" by simp
  from n have "n * 10 ^ 7 \<noteq> 0" by simp
  from convert_ad_timestamp_micros [OF x this, of False fmt] show ?thesis
    unfolding q r timedelta_micros_of_int Let_def using lo hi by simp
qed

lemma timestamp_micros_mono:
  assumes "t1 \<le> t2"
  shows "timedelta_micros (round_double (of_int t1 / 10 ^ 7))
      \<le> timedelta_micros (round_double (of_int t2 / 10 ^ 7))"
proof -
  have "(of_int t1 :: rat) / 10 ^ 7 \<le> of_int t2 / 10 ^ 7"
    using assms by (simp add: divide_right_mono)
  then show ?thesis by (intro timedelta_micros_mono round_double_mono)
qed

lemma timestamp_micros_error:
  assumes "t \<noteq> 0"
  shows "\<bar>of_int (timedelta_micros (round_double (of_int t / 10 ^ 7))) - of_int t / 10\<bar>
      \<le> 1 / 2 + 10 ^ 6 / 2 ^ 53 + \<bar>of_int t :: rat\<bar> / (10 * 2 ^ 53)"
proof -
  let ?q = "of_int t / 10 ^ 7 :: rat"
  let ?x = "round_double ?q"
  from assms have "?q \<noteq> 0" by simp
  then have "\<bar>?x - ?q\<bar> \<le> \<bar>?q\<bar> / 2 ^ 53" by (rule round_double_error)
  then have "10 ^ 6 * \<bar>?x - ?q\<bar> \<le> 10 ^ 6 * (\<bar>?q\<bar> / 2 ^ 53)" by (rule mult_left_mono) simp
  also have "10 ^ 6 * (\<bar>?q\<bar> / 2 ^ 53) = \<bar>of_int t :: rat\<bar> / (10 * 2 ^ 53)" by (simp add: abs_divide)
  finally have b: "10 ^ 6 * \<bar>?x - ?q\<bar> \<le> \<bar>of_int t :: rat\<bar> / (10 * 2 ^ 53)" .
  have "10 ^ 6 * ?x - of_int t / 10 = 10 ^ 6 * (?x - ?q)" by (simp add: algebra_simps)
  then have "\<bar>10 ^ 6 * ?x - of_int t / 10\<bar> = 10 ^ 6 * \<bar>?x - ?q\<bar>"
    by (simp only: abs_mult) simp
  with b have a: "\<bar>10 ^ 6 * ?x - of_int t / 10\<bar> \<le> \<bar>of_int t :: rat\<bar> / (10 * 2 ^ 53)"
    by (simp only:)
  have "\<bar>of_int (timedelta_micros ?x) - of_int t / 10\<bar>
      \<le> \<bar>of_int (timedelta_micros ?x) - 10 ^ 6 * ?x\<bar> + \<bar>10 ^ 6 * ?x - of_int t / 10\<bar>"
    by linarith
  with a timedelta_micros_error [of ?x] show ?thesis by linarith
qed

lemma timedelta_micros_numeral: "timedelta_micros (numeral k) = numeral k * 10 ^ 6"
  using timedelta_micros_of_int [of "numeral k"] by simp

lemma seconds_since_epoch_2016: "seconds_since_epoch 131000000000000000 = Inr 13100000000"
  using seconds_since_epoch_whole [of 13100000000] by simp

text \<open>Timestamps that are not a whole number of seconds, and timestamps at the ends of the
  range of \<^verbatim>\<open>datetime\<close>.\<close>

lemma timestamp_micros_examples:
  "timedelta_micros (round_double (of_int 15000000 / 10 ^ 7)) = 1500000"
  "timedelta_micros (round_double (of_int 2650467743999999990 / 10 ^ 7)) = 265046774400000000"
  "timedelta_micros (round_double (of_int (- 504911232000000010) / 10 ^ 7)) = - 50491123200000000"
  "timedelta_micros (round_double (of_int 9223372036854775807 / 10 ^ 7)) = 922337203685477539"
  by code_simp+

text \<open>
  C9, amended. \<^verbatim>\<open>convert_ad_timestamp\<close> returns \<^verbatim>\<open>None\<close> for a timestamp that reads as 0.
  For a timestamp that reads as \<open>t \<noteq> 0\<close>, let \<open>us\<close> be the microseconds of
  \<^verbatim>\<open>timedelta(seconds=t / 10 ** 7)\<close>, the quotient being the float of Python 3. The
  conversion returns 1601-01-01T00:00:00 plus \<open>us\<close> microseconds when that sum lies within
  the years 1 to 9999, and raises \<^verbatim>\<open>OverflowError\<close> otherwise. The duration \<open>us\<close> differs
  from \<open>t / 10\<^sup>7\<close> seconds by no more than half a microsecond and the two roundings of the
  float arithmetic, and the conversion is exact for a whole number of seconds. Over the
  non-zero timestamps for which it returns, the conversion is monotone.
\<close>

theorem convert_ad_timestamp_spec:
  "(py_int lib z = Inr 0 \<longrightarrow> convert_ad_timestamp lib z js fmt = Inr PNone) \<and>
   (py_int lib x = Inr t \<and> t \<noteq> 0 \<and> us = timedelta_micros (round_double (of_int t / 10 ^ 7)) \<longrightarrow>
      convert_ad_timestamp lib x False fmt =
        (if 0 \<le> epoch_start + us \<and> epoch_start + us \<le> datetime_max
         then Inr (PDatetime (epoch_start + us)) else Inl OverflowError)
      \<and> \<bar>of_int us - of_int t / 10\<bar> \<le> 1 / 2 + 10 ^ 6 / 2 ^ 53 + \<bar>of_int t :: rat\<bar> / (10 * 2 ^ 53)) \<and>
   (py_int lib y = Inr (n * 10 ^ 7) \<and> n \<noteq> 0
      \<and> 0 \<le> epoch_start + n * 10 ^ 6 \<and> epoch_start + n * 10 ^ 6 \<le> datetime_max \<longrightarrow>
      convert_ad_timestamp lib y False fmt = Inr (PDatetime (epoch_start + n * 10 ^ 6))) \<and>
   (py_int lib x1 = Inr t1 \<and> py_int lib x2 = Inr t2 \<and> t1 \<noteq> 0 \<and> t2 \<noteq> 0 \<and> t1 \<le> t2
      \<and> convert_ad_timestamp lib x1 False fmt = Inr (PDatetime d1)
      \<and> convert_ad_timestamp lib x2 False fmt = Inr (PDatetime d2) \<longrightarrow> d1 \<le> d2)"
proof -
  have a: "py_int lib z = Inr 0 \<longrightarrow> convert_ad_timestamp lib z js fmt = Inr PNone"
    by (simp add: convert_ad_timestamp_def)
  have b: "py_int lib x = Inr t \<and> t \<noteq> 0 \<and> us = timedelta_micros (round_double (of_int t / 10 ^ 7)) \<longrightarrow>
      convert_ad_timestamp lib x False fmt =
        (if 0 \<le> epoch_start + us \<and> epoch_start + us \<le> datetime_max
         then Inr (PDatetime (epoch_start + us)) else Inl OverflowError)
      \<and> \<bar>of_int us - of_int t / 10\<bar> \<le> 1 / 2 + 10 ^ 6 / 2 ^ 53 + \<bar>of_int t :: rat\<bar> / (10 * 2 ^ 53)"
    using convert_ad_timestamp_micros [of lib x t False fmt] timestamp_micros_error [of t]
    by (simp add: Let_def)
  have c: "py_int lib y = Inr (n * 10 ^ 7) \<and> n \<noteq> 0
      \<and> 0 \<le> epoch_start + n * 10 ^ 6 \<and> epoch_start + n * 10 ^ 6 \<le> datetime_max \<longrightarrow>
      convert_ad_timestamp lib y False fmt = Inr (PDatetime (epoch_start + n * 10 ^ 6))"
    using convert_ad_timestamp_whole [of lib y n fmt] by blast
  have d: "py_int lib x1 = Inr t1 \<and> py_int lib x2 = Inr t2 \<and> t1 \<noteq> 0 \<and> t2 \<noteq> 0 \<and> t1 \<le> t2
      \<and> convert_ad_timestamp lib x1 False fmt = Inr (PDatetime d1)
      \<and> convert_ad_timestamp lib x2 False fmt = Inr (PDatetime d2) \<longrightarrow> d1 \<le> d2"
    using convert_ad_timestamp_micros [of lib x1 t1 False fmt]
      convert_ad_timestamp_micros [of lib x2 t2 False fmt] timestamp_micros_mono [of t1 t2]
    by (auto simp: Let_def split: if_splits)
  from a b c d show ?thesis by blast
qed

text \<open>
  The conversion at 0, at one and at two seconds, at one second and a half, and at both
  ends of the range: the timestamp of 9999-12-31T23:59:59.999999 is rounded up by the
  float division and raises, the timestamp one microsecond before 0001-01-01T00:00:00
  is rounded up and returns.
\<close>

theorem convert_ad_timestamp_spec_witness:
  "py_int ascii_lib (PStr ''0'') = Inr 0 \<and>
   convert_ad_timestamp ascii_lib (PStr ''0'') False ''%x %X'' = Inr PNone \<and>
   convert_ad_timestamp ascii_lib (PInt 10000000) False ''%x %X''
     = Inr (PDatetime 50491123201000000) \<and>
   convert_ad_timestamp ascii_lib (PInt 15000000) False ''%x %X''
     = Inr (PDatetime 50491123201500000) \<and>
   convert_ad_timestamp ascii_lib (PInt 20000000) False ''%x %X''
     = Inr (PDatetime 50491123202000000) \<and>
   convert_ad_timestamp ascii_lib (PInt 2650467743999999990) False ''%x %X'' = Inl OverflowError \<and>
   convert_ad_timestamp ascii_lib (PInt (- 504911232000000010)) False ''%x %X'' = Inr (PDatetime 0) \<and>
   \<bar>(1500000 :: rat) - 15000000 / 10\<bar> \<le> 1 / 2 + 10 ^ 6 / 2 ^ 53 + 15000000 / (10 * 2 ^ 53) \<and>
   (50491123201000000 :: int) \<le> 50491123202000000"
proof -
  have z: "py_int ascii_lib (PStr ''0'') = Inr 0"
    by (simp add: ascii_lib_def parse_int_def digit_value_def)
  note spec = convert_ad_timestamp_spec
    [where lib = ascii_lib and z = "PStr ''0''" and js = False and fmt = "''%x %X''"]
  have c0: "convert_ad_timestamp ascii_lib (PStr ''0'') False ''%x %X'' = Inr PNone"
    using spec z by blast
  have c1: "convert_ad_timestamp ascii_lib (PInt 10000000) False ''%x %X''
      = Inr (PDatetime 50491123201000000)"
    using spec [where y = "PInt 10000000" and n = 1]
    by (simp add: epoch_start_value datetime_max_value)
  have c2: "convert_ad_timestamp ascii_lib (PInt 20000000) False ''%x %X''
      = Inr (PDatetime 50491123202000000)"
    using spec [where y = "PInt 20000000" and n = 2]
    by (simp add: epoch_start_value datetime_max_value)
  have c3: "convert_ad_timestamp ascii_lib (PInt 15000000) False ''%x %X''
      = Inr (PDatetime 50491123201500000)
      \<and> \<bar>(1500000 :: rat) - 15000000 / 10\<bar> \<le> 1 / 2 + 10 ^ 6 / 2 ^ 53 + 15000000 / (10 * 2 ^ 53)"
    using spec [where x = "PInt 15000000" and t = 15000000 and us = 1500000]
      timestamp_micros_examples(1)
    by (simp add: epoch_start_value datetime_max_value)
  have c4: "convert_ad_timestamp ascii_lib (PInt 2650467743999999990) False ''%x %X''
      = Inl OverflowError"
    using spec [where x = "PInt 2650467743999999990" and t = 2650467743999999990
        and us = 265046774400000000]
      timestamp_micros_examples(2)
    by (simp add: epoch_start_value datetime_max_value)
  have c5: "convert_ad_timestamp ascii_lib (PInt (- 504911232000000010)) False ''%x %X''
      = Inr (PDatetime 0)"
    using spec [where x = "PInt (- 504911232000000010)" and t = "- 504911232000000010"
        and us = "- 50491123200000000"]
      timestamp_micros_examples(3)
    by (simp add: epoch_start_value datetime_max_value)
  have le: "(50491123201000000 :: int) \<le> 50491123202000000"
    using spec [where ?x1.0 = "PInt 10000000" and ?t1.0 = 10000000
        and ?x2.0 = "PInt 20000000" and ?t2.0 = 20000000
        and ?d1.0 = 50491123201000000 and ?d2.0 = 50491123202000000] c1 c2
    by simp
  show ?thesis using z c0 c1 c2 c3 c4 c5 le by simp
qed

text \<open>
  C9 as stated fails: the largest 64-bit timestamp, which Active Directory uses for
  "never", is not zero, and the conversion raises \<^verbatim>\<open>OverflowError\<close> instead of returning
  the sum, which lies beyond the year 9999.
\<close>

theorem convert_ad_timestamp_overflow:
  "convert_ad_timestamp ascii_lib (PInt 9223372036854775807) False ''%x %X'' = Inl OverflowError"
  using convert_ad_timestamp_micros [of ascii_lib "PInt 9223372036854775807" 9223372036854775807
      False "''%x %X''"] timestamp_micros_examples(4)
  by (simp add: epoch_start_value datetime_max_value)

text \<open>
  C7. \<^verbatim>\<open>_get_last_logon\<close> returns -1 when the timestamp is unset (it reads as 0, the
  conversion gives \<^verbatim>\<open>None\<close>), and the marker \<^verbatim>\<open>"<= 14 days"\<close> whenever the converted time
  is 14 days or less before the clock reading, whatever \<open>json_safe\<close> is.
\<close>

theorem get_last_logon_spec:
  "(py_int lib ts = Inr 0 \<longrightarrow> get_last_logon lib now ts js = Inr (PInt (- 1))) \<and>
   (convert_ad_timestamp lib ts False ''%x %X'' = Inr PNone \<longrightarrow>
      get_last_logon lib now ts js = Inr (PInt (- 1))) \<and>
   (convert_ad_timestamp lib ts False ''%x %X'' = Inr (PDatetime d) \<and> now - d \<le> 14 * us_per_day \<longrightarrow>
      get_last_logon lib now ts js = Inr (PStr ''<= 14 days''))"
proof -
  have "(now - d) div us_per_day \<le> 14" if "now - d \<le> 14 * us_per_day"
  proof -
    have "(now - d) div us_per_day \<le> (14 * us_per_day) div us_per_day"
      using that by (rule zdiv_mono1) (simp add: us_per_day_def)
    then show ?thesis by (simp add: us_per_day_def)
  qed
  then show ?thesis
    by (auto simp: get_last_logon_def Let_def convert_ad_timestamp_def)
qed

theorem get_last_logon_spec_witness:
  "py_int ascii_lib (PStr ''0'') = Inr 0 \<and>
   get_last_logon ascii_lib 50492332801000000 (PStr ''0'') True = Inr (PInt (- 1)) \<and>
   convert_ad_timestamp ascii_lib (PInt 10000000) False ''%x %X''
     = Inr (PDatetime 50491123201000000) \<and>
   (50492332801000000 :: int) - 50491123201000000 \<le> 14 * us_per_day \<and>
   get_last_logon ascii_lib 50492332801000000 (PInt 10000000) True = Inr (PStr ''<= 14 days'') \<and>
   get_last_logon ascii_lib 50492332801000000 (PInt 10000000) False = Inr (PStr ''<= 14 days'')"
proof -
  have z: "py_int ascii_lib (PStr ''0'') = Inr 0"
    by (simp add: ascii_lib_def parse_int_def digit_value_def)
  have c: "convert_ad_timestamp ascii_lib (PInt 10000000) False ''%x %X''
      = Inr (PDatetime 50491123201000000)"
    using convert_ad_timestamp_whole [of ascii_lib "PInt 10000000" 1 "''%x %X''"]
    by (simp add: epoch_start_value datetime_max_value)
  have r: "(50492332801000000 :: int) - 50491123201000000 \<le> 14 * us_per_day"
    by (simp add: us_per_day_def)
  note spec = get_last_logon_spec [where lib = ascii_lib and now = 50492332801000000]
  have a: "get_last_logon ascii_lib 50492332801000000 (PStr ''0'') True = Inr (PInt (- 1))"
    using spec [where ts = "PStr ''0''" and js = True] z by blast
  have b: "get_last_logon ascii_lib 50492332801000000 (PInt 10000000) js = Inr (PStr ''<= 14 days'')"
    for js
    using spec [where ts = "PInt 10000000" and js = js and d = 50491123201000000] c r by blast
  show ?thesis using z a c r b by simp
qed


section \<open>Properties of the connection wrapper\<close>

lemma split_on_not_Nil: "split_on c s \<noteq> []"
  by (induction s) (auto split: list.splits)

lemma split_on_absent: "c \<notin> set s \<Longrightarrow> split_on c s = [s]"
  by (induction s) auto

lemma last_split_on: "last (split_on c s) = rev (takeWhile (\<lambda>x. x \<noteq> c) (rev s))"
proof (induction s)
  case Nil
  then show ?case by simp
next
  case (Cons a s)
  show ?case
  proof (cases "c \<in> set s")
    case True
    then have tw: "takeWhile (\<lambda>x. x \<noteq> c) (rev s @ [a]) = takeWhile (\<lambda>x. x \<noteq> c) (rev s)"
      by (auto simp: takeWhile_append)
    obtain x xs where sp: "split_on c s = x # xs" using split_on_not_Nil [of c s]
      by (cases "split_on c s") auto
    have "xs \<noteq> []"
    proof
      assume "xs = []"
      with sp have "split_on c s = [x]" by simp
      moreover have "c \<in> set s \<Longrightarrow> length (split_on c s) \<ge> 2"
        by (induction s) (auto split: list.splits simp: split_on_not_Nil Suc_le_eq)
      ultimately show False using True by simp
    qed
    then have "last (split_on c (a # s)) = last (split_on c s)"
      using sp by auto
    then show ?thesis using Cons tw by simp
  next
    case False
    then have "split_on c s = [s]" by (rule split_on_absent)
    moreover have "takeWhile (\<lambda>x. x \<noteq> c) (rev s) = rev s"
      using False by (auto simp: takeWhile_eq_all_conv)
    ultimately show ?thesis using False
      by (auto simp: takeWhile_append)
  qed
qed

lemma after_last_separator:
  "c \<notin> set (rev (takeWhile (\<lambda>x. x \<noteq> c) (rev s))) \<and>
   (\<exists>pre. s = pre @ rev (takeWhile (\<lambda>x. x \<noteq> c) (rev s)) \<and> (pre = [] \<or> last pre = c))"
proof -
  let ?P = "\<lambda>x. x \<noteq> c"
  have a: "c \<notin> set (rev (takeWhile ?P (rev s)))"
    using set_takeWhileD [of c ?P "rev s"] by auto
  have s: "s = rev (dropWhile ?P (rev s)) @ rev (takeWhile ?P (rev s))"
    by (metis rev_append rev_rev_ident takeWhile_dropWhile_id)
  have "dropWhile ?P (rev s) = [] \<or> hd (dropWhile ?P (rev s)) = c"
    using hd_dropWhile [of ?P "rev s"] by auto
  then have "rev (dropWhile ?P (rev s)) = [] \<or> last (rev (dropWhile ?P (rev s))) = c"
    by (auto simp: last_rev)
  with a s show ?thesis by blast
qed

lemma bind_username_text:
  "cfg ''AD_DOMAIN'' = Some (PStr domain) \<Longrightarrow>
   bind_username lib cfg (PStr s) =
     Inr (let name = rev (takeWhile (\<lambda>c. c \<noteq> CHR 0x5C) (rev s))
          in if CHR ''@'' \<notin> set name \<and> \<not> sublist ''cn='' (str_lower lib name)
             then name @ ''@'' @ domain else name)"
  by (simp add: bind_username_def last_split_on Let_def)

text \<open>
  C4, amended. \<^verbatim>\<open>bind\<close> keeps the part of the user name after the last backslash; when
  that part holds no \<open>@\<close> and its lower case does not contain \<open>cn=\<close> anywhere, it appends
  \<open>@\<close> and the configured domain; otherwise the part is sent unchanged. The identity so
  formed is the one passed to \<^verbatim>\<open>bind_s\<close>.
\<close>

theorem bind_identity:
  "conn_config self ''AD_DOMAIN'' = Some (PStr domain) \<Longrightarrow>
   (let name = rev (takeWhile (\<lambda>c. c \<noteq> CHR 0x5C) (rev s));
        identity = (if CHR ''@'' \<notin> set name \<and> \<not> sublist ''cn='' (str_lower (lib_of sys) name)
                    then name @ ''@'' @ domain else name)
    in CHR 0x5C \<notin> set name
       \<and> (\<exists>pre. s = pre @ name \<and> (pre = [] \<or> last pre = CHR 0x5C))
       \<and> bind_username (lib_of sys) (conn_config self) (PStr s) = Inr identity
       \<and> snd (bind sys self (Some [''username'' \<mapsto> PStr s, ''password'' \<mapsto> p]) w) =
           log_event (ad self)
             (Bind_s identity p (bind_result (dir_of sys) (ad self) identity p)) w)"
proof -
  assume d: "conn_config self ''AD_DOMAIN'' = Some (PStr domain)"
  have c: "bind_credentials (conn_config self) (Some [''username'' \<mapsto> PStr s, ''password'' \<mapsto> p])
             = Inr [''username'' \<mapsto> PStr s, ''password'' \<mapsto> p]"
    by (simp add: bind_credentials_def)
  show ?thesis
    using after_last_separator [of "CHR 0x5C" s] bind_username_text [where cfg = "conn_config self" and lib = "lib_of sys" and s = s, OF d]
    by (simp add: Let_def bind_def c split: option.splits)
qed

text \<open>The three examples of the claim: \<^verbatim>\<open>DOMAIN\bob\<close> binds as \<^verbatim>\<open>bob@example.com\<close>, and
  \<^verbatim>\<open>cn=admin,dc=example,dc=com\<close> and \<^verbatim>\<open>bob@example.com\<close> are sent unchanged.\<close>

theorem bind_identity_witness:
  "conn_config \<lparr>conn_config = example_config, ad = 0\<rparr> ''AD_DOMAIN'' = Some (PStr ''example.com'') \<and>
   bind_username ascii_lib example_config (PStr (''DOMAIN'' @ [CHR 0x5C] @ ''bob''))
     = Inr ''bob@example.com'' \<and>
   bind_username ascii_lib example_config (PStr ''cn=admin,dc=example,dc=com'')
     = Inr ''cn=admin,dc=example,dc=com'' \<and>
   bind_username ascii_lib example_config (PStr ''bob@example.com'') = Inr ''bob@example.com'' \<and>
   events (snd (bind (fake_system (Inr []) 0) \<lparr>conn_config = example_config, ad = 0\<rparr>
                  (Some [''username'' \<mapsto> PStr (''DOMAIN'' @ [CHR 0x5C] @ ''bob''),
                         ''password'' \<mapsto> PStr ''secret'']) world0))
     = [(0, Bind_s ''bob@example.com'' (PStr ''secret'') None)]"
proof -
  let ?self = "\<lparr>conn_config = example_config, ad = 0\<rparr>"
  let ?sys = "fake_system (Inr []) 0"
  have d: "conn_config ?self ''AD_DOMAIN'' = Some (PStr ''example.com'')"
    by (simp add: example_config_def)
  have l: "lib_of ?sys = ascii_lib" by (simp add: fake_system_def)
  note spec = bind_identity [OF d, where sys = ?sys and p = "PStr ''secret''" and w = world0]
  have a: "bind_username ascii_lib example_config (PStr (''DOMAIN'' @ [CHR 0x5C] @ ''bob''))
      = Inr ''bob@example.com''"
    using spec [where s = "''DOMAIN'' @ [CHR 0x5C] @ ''bob''"]
    by (simp add: Let_def l ascii_lib_def sublist_Cons_right)
  have b: "bind_username ascii_lib example_config (PStr ''cn=admin,dc=example,dc=com'')
      = Inr ''cn=admin,dc=example,dc=com''"
    using spec [where s = "''cn=admin,dc=example,dc=com''"]
    by (simp add: Let_def l ascii_lib_def sublist_Cons_right)
  have c: "bind_username ascii_lib example_config (PStr ''bob@example.com'') = Inr ''bob@example.com''"
    using spec [where s = "''bob@example.com''"]
    by (simp add: Let_def l ascii_lib_def sublist_Cons_right)
  have e: "events (snd (bind ?sys ?self
                  (Some [''username'' \<mapsto> PStr (''DOMAIN'' @ [CHR 0x5C] @ ''bob''),
                         ''password'' \<mapsto> PStr ''secret'']) world0))
     = [(0, Bind_s ''bob@example.com'' (PStr ''secret'') None)]"
    using spec [where s = "''DOMAIN'' @ [CHR 0x5C] @ ''bob''"]
    by (simp add: Let_def l ascii_lib_def sublist_Cons_right log_event_def world0_def fake_system_def
          fake_directory_def)
  show ?thesis using d a b c e by simp
qed

text \<open>
  C4 as stated fails: a name that holds no \<open>@\<close> and does not start with \<open>cn=\<close>, but
  contains \<open>cn=\<close> further on, is sent without the domain.
\<close>

theorem bind_identity_passthrough:
  "CHR ''@'' \<notin> set ''uid=bob,cn=users,dc=example,dc=com'' \<and>
   \<not> prefix ''cn='' (str_lower ascii_lib ''uid=bob,cn=users,dc=example,dc=com'') \<and>
   bind_username ascii_lib example_config (PStr ''uid=bob,cn=users,dc=example,dc=com'')
     = Inr ''uid=bob,cn=users,dc=example,dc=com''"
  by (simp add: bind_username_def example_config_def ascii_lib_def sublist_Cons_right)

lemma bind_username_not_ValueError: "bind_username lib cfg u \<noteq> Inl (ValueError msg)"
  by (auto simp: bind_username_def Let_def split: pyval.splits option.splits)

text \<open>
  C10. Credentials that lack the key \<^verbatim>\<open>username\<close> or the key \<^verbatim>\<open>password\<close> are ignored:
  \<^verbatim>\<open>bind\<close> does what it does when given none. Given none, it raises \<^verbatim>\<open>ValueError\<close>
  exactly when the configured bind user name or password is missing or \<^verbatim>\<open>None\<close>.
  Otherwise it binds with the configured \<^verbatim>\<open>AD_BIND_USERNAME\<close> and \<^verbatim>\<open>AD_BIND_PASSWORD\<close>: the
  identity formed from the configured user name is passed to \<^verbatim>\<open>bind_s\<close> with the
  configured password, once, and nothing is sent when no identity can be formed. For a
  configured user name that is text, in a configured domain, that identity is the part
  of the name after the last backslash, with \<open>@\<close> and the domain appended when the part
  holds no \<open>@\<close> and its lower case does not contain \<open>cn=\<close>.
\<close>

theorem bind_partial_credentials:
  "(credentials = Some c \<and> (''username'' \<notin> dom c \<or> ''password'' \<notin> dom c) \<longrightarrow>
      bind sys self credentials w = bind sys self None w) \<and>
   ((\<exists>msg. fst (bind sys self None w) = Inl (ValueError msg)) \<longleftrightarrow>
      (''AD_BIND_USERNAME'' \<notin> dom (conn_config self)
       \<or> conn_config self ''AD_BIND_USERNAME'' = Some PNone
       \<or> ''AD_BIND_PASSWORD'' \<notin> dom (conn_config self)
       \<or> conn_config self ''AD_BIND_PASSWORD'' = Some PNone)) \<and>
   (conn_config self ''AD_BIND_USERNAME'' = Some u \<and> u \<noteq> PNone
      \<and> conn_config self ''AD_BIND_PASSWORD'' = Some p \<and> p \<noteq> PNone \<longrightarrow>
      bind sys self None w =
        (case bind_username (lib_of sys) (conn_config self) u of
           Inl e \<Rightarrow> (Inl e, w)
         | Inr identity \<Rightarrow>
             ((case bind_result (dir_of sys) (ad self) identity p of
                 None \<Rightarrow> Inr True
               | Some e \<Rightarrow> Inl (LDAPError e)),
              log_event (ad self)
                (Bind_s identity p (bind_result (dir_of sys) (ad self) identity p)) w))) \<and>
   ((given = None \<or> (\<exists>g. given = Some g \<and> (''username'' \<notin> dom g \<or> ''password'' \<notin> dom g)))
      \<and> conn_config self ''AD_BIND_USERNAME'' = Some (PStr s)
      \<and> conn_config self ''AD_BIND_PASSWORD'' = Some q \<and> q \<noteq> PNone
      \<and> conn_config self ''AD_DOMAIN'' = Some (PStr domain) \<longrightarrow>
      (let name = rev (takeWhile (\<lambda>c. c \<noteq> CHR 0x5C) (rev s));
           identity = (if CHR ''@'' \<notin> set name \<and> \<not> sublist ''cn='' (str_lower (lib_of sys) name)
                       then name @ ''@'' @ domain else name)
       in bind sys self given w =
            ((case bind_result (dir_of sys) (ad self) identity q of
                None \<Rightarrow> Inr True
              | Some e \<Rightarrow> Inl (LDAPError e)),
             log_event (ad self)
               (Bind_s identity q (bind_result (dir_of sys) (ad self) identity q)) w)))"
proof -
  have a: "bind sys self (Some c) w = bind sys self None w"
    if "''username'' \<notin> dom c \<or> ''password'' \<notin> dom c" for c
    using that by (auto simp: bind_def bind_credentials_def)
  have c: "bind sys self None w =
        (case bind_username (lib_of sys) (conn_config self) u of
           Inl e \<Rightarrow> (Inl e, w)
         | Inr identity \<Rightarrow>
             ((case bind_result (dir_of sys) (ad self) identity p of
                 None \<Rightarrow> Inr True
               | Some e \<Rightarrow> Inl (LDAPError e)),
              log_event (ad self)
                (Bind_s identity p (bind_result (dir_of sys) (ad self) identity p)) w))"
    if "conn_config self ''AD_BIND_USERNAME'' = Some u" "u \<noteq> PNone"
      "conn_config self ''AD_BIND_PASSWORD'' = Some p" "p \<noteq> PNone" for u p
  proof -
    have "bind_credentials (conn_config self) None = Inr [''username'' \<mapsto> u, ''password'' \<mapsto> p]"
      using that by (simp add: bind_credentials_def domIff)
    then show ?thesis
      by (simp add: bind_def Let_def split: sum.splits option.splits)
  qed
  have A: "credentials = Some c \<and> (''username'' \<notin> dom c \<or> ''password'' \<notin> dom c) \<longrightarrow>
      bind sys self credentials w = bind sys self None w"
    using a [of c] by blast
  have B: "(\<exists>msg. fst (bind sys self None w) = Inl (ValueError msg)) \<longleftrightarrow>
      (''AD_BIND_USERNAME'' \<notin> dom (conn_config self)
       \<or> conn_config self ''AD_BIND_USERNAME'' = Some PNone
       \<or> ''AD_BIND_PASSWORD'' \<notin> dom (conn_config self)
       \<or> conn_config self ''AD_BIND_PASSWORD'' = Some PNone)"
    using bind_username_not_ValueError
    by (auto simp: bind_def bind_credentials_def Let_def split: sum.splits option.splits)
  have C: "conn_config self ''AD_BIND_USERNAME'' = Some u \<and> u \<noteq> PNone
      \<and> conn_config self ''AD_BIND_PASSWORD'' = Some p \<and> p \<noteq> PNone \<longrightarrow>
      bind sys self None w =
        (case bind_username (lib_of sys) (conn_config self) u of
           Inl e \<Rightarrow> (Inl e, w)
         | Inr identity \<Rightarrow>
             ((case bind_result (dir_of sys) (ad self) identity p of
                 None \<Rightarrow> Inr True
               | Some e \<Rightarrow> Inl (LDAPError e)),
              log_event (ad self)
                (Bind_s identity p (bind_result (dir_of sys) (ad self) identity p)) w))"
    using c [of u p] by blast
  have D: "(given = None \<or> (\<exists>g. given = Some g \<and> (''username'' \<notin> dom g \<or> ''password'' \<notin> dom g)))
      \<and> conn_config self ''AD_BIND_USERNAME'' = Some (PStr s)
      \<and> conn_config self ''AD_BIND_PASSWORD'' = Some q \<and> q \<noteq> PNone
      \<and> conn_config self ''AD_DOMAIN'' = Some (PStr domain) \<longrightarrow>
      (let name = rev (takeWhile (\<lambda>c. c \<noteq> CHR 0x5C) (rev s));
           identity = (if CHR ''@'' \<notin> set name \<and> \<not> sublist ''cn='' (str_lower (lib_of sys) name)
                       then name @ ''@'' @ domain else name)
       in bind sys self given w =
            ((case bind_result (dir_of sys) (ad self) identity q of
                None \<Rightarrow> Inr True
              | Some e \<Rightarrow> Inl (LDAPError e)),
             log_event (ad self)
               (Bind_s identity q (bind_result (dir_of sys) (ad self) identity q)) w))"
  proof (intro impI, elim conjE)
    assume g: "given = None \<or> (\<exists>g. given = Some g \<and> (''username'' \<notin> dom g \<or> ''password'' \<notin> dom g))"
      and u: "conn_config self ''AD_BIND_USERNAME'' = Some (PStr s)"
      and p: "conn_config self ''AD_BIND_PASSWORD'' = Some q" "q \<noteq> PNone"
      and dm: "conn_config self ''AD_DOMAIN'' = Some (PStr domain)"
    from g a have same: "bind sys self given w = bind sys self None w" by auto
    have ne: "PStr s \<noteq> PNone" by simp
    note sent = c [OF u ne p]
    note identity = bind_username_text
      [where cfg = "conn_config self" and lib = "lib_of sys" and s = s, OF dm]
    show "let name = rev (takeWhile (\<lambda>c. c \<noteq> CHR 0x5C) (rev s));
           identity = (if CHR ''@'' \<notin> set name \<and> \<not> sublist ''cn='' (str_lower (lib_of sys) name)
                       then name @ ''@'' @ domain else name)
       in bind sys self given w =
            ((case bind_result (dir_of sys) (ad self) identity q of
                None \<Rightarrow> Inr True
              | Some e \<Rightarrow> Inl (LDAPError e)),
             log_event (ad self)
               (Bind_s identity q (bind_result (dir_of sys) (ad self) identity q)) w)"
      unfolding same sent identity by (simp add: Let_def)
  qed
  show ?thesis by (rule conjI [OF A conjI [OF B conjI [OF C D]]])
qed

text \<open>With the configured account \<^verbatim>\<open>svc\<close> of the domain \<^verbatim>\<open>example.com\<close>: credentials that
  name \<^verbatim>\<open>bob\<close> and no password, like no credentials, bind as \<^verbatim>\<open>svc@example.com\<close> with the
  configured password; a configured password that is \<^verbatim>\<open>None\<close> raises \<^verbatim>\<open>ValueError\<close>.\<close>

theorem bind_partial_credentials_witness:
  "[''username'' \<mapsto> PStr ''bob''] ''password'' = None \<and>
   bind (fake_system (Inr []) 0) \<lparr>conn_config = example_config, ad = 0\<rparr>
     (Some [''username'' \<mapsto> PStr ''bob'']) world0
     = bind (fake_system (Inr []) 0) \<lparr>conn_config = example_config, ad = 0\<rparr> None world0 \<and>
   fst (bind (fake_system (Inr []) 0) \<lparr>conn_config = example_config, ad = 0\<rparr> None world0)
     = Inr True \<and>
   (\<exists>msg. fst (bind (fake_system (Inr []) 0)
                 \<lparr>conn_config = example_config(''AD_BIND_PASSWORD'' \<mapsto> PNone), ad = 0\<rparr> None world0)
           = Inl (ValueError msg)) \<and>
   example_config ''AD_BIND_USERNAME'' = Some (PStr ''svc'') \<and>
   example_config ''AD_BIND_PASSWORD'' = Some (PStr ''secret'') \<and>
   bind_username ascii_lib example_config (PStr ''svc'') = Inr ''svc@example.com'' \<and>
   bind (fake_system (Inr []) 0) \<lparr>conn_config = example_config, ad = 0\<rparr> None world0
     = (Inr True,
        \<lparr>next_conn = 0, events = [(0, Bind_s ''svc@example.com'' (PStr ''secret'') None)]\<rparr>) \<and>
   bind (fake_system (Inr []) 0) \<lparr>conn_config = example_config, ad = 0\<rparr>
     (Some [''username'' \<mapsto> PStr ''bob'']) world0
     = (Inr True,
        \<lparr>next_conn = 0, events = [(0, Bind_s ''svc@example.com'' (PStr ''secret'') None)]\<rparr>)"
proof -
  let ?self = "\<lparr>conn_config = example_config, ad = 0\<rparr>"
  let ?self' = "\<lparr>conn_config = example_config(''AD_BIND_PASSWORD'' \<mapsto> PNone), ad = 0\<rparr>"
  let ?sys = "fake_system (Inr []) 0"
  let ?sent = "(Inr True :: error + bool,
        \<lparr>next_conn = 0, events = [(0, Bind_s ''svc@example.com'' (PStr ''secret'') None)]\<rparr>)"
  have n: "[''username'' \<mapsto> PStr ''bob''] ''password'' = None" by simp
  have a: "bind ?sys ?self (Some [''username'' \<mapsto> PStr ''bob'']) world0 = bind ?sys ?self None world0"
    using bind_partial_credentials
      [where credentials = "Some [''username'' \<mapsto> PStr ''bob'']"
         and c = "[''username'' \<mapsto> PStr ''bob'']" and sys = ?sys and self = ?self and w = world0]
    by simp
  have c: "\<exists>msg. fst (bind ?sys ?self' None world0) = Inl (ValueError msg)"
    using bind_partial_credentials [where sys = ?sys and self = ?self' and w = world0]
    by simp
  have u: "example_config ''AD_BIND_USERNAME'' = Some (PStr ''svc'')"
    and p: "example_config ''AD_BIND_PASSWORD'' = Some (PStr ''secret'')"
    and dm: "example_config ''AD_DOMAIN'' = Some (PStr ''example.com'')"
    by (simp_all add: example_config_def)
  have i: "bind_username ascii_lib example_config (PStr ''svc'') = Inr ''svc@example.com''"
    using bind_username_text [where cfg = example_config and lib = ascii_lib and s = "''svc''", OF dm]
    by (simp add: Let_def ascii_lib_def sublist_Cons_right)
  have l: "lib_of ?sys = ascii_lib" by (simp add: fake_system_def)
  have d: "bind ?sys ?self None world0 = ?sent"
    using bind_partial_credentials
      [where sys = ?sys and self = ?self and w = world0 and u = "PStr ''svc''"
         and p = "PStr ''secret''"] u p
    by (simp add: l i fake_system_def fake_directory_def log_event_def world0_def)
  have e: "bind ?sys ?self (Some [''username'' \<mapsto> PStr ''bob'']) world0 = ?sent"
    using bind_partial_credentials
      [where sys = ?sys and self = ?self and w = world0 and s = "''svc''" and q = "PStr ''secret''"
         and domain = "''example.com''" and given = "Some [''username'' \<mapsto> PStr ''bob'']"] u p dm
    by (simp add: Let_def l ascii_lib_def sublist_Cons_right fake_system_def fake_directory_def
          log_event_def world0_def)
  have b: "fst (bind ?sys ?self None world0) = Inr True" by (simp add: d)
  show ?thesis using n a b c u p i d e by simp
qed


section \<open>Properties of the client constructor\<close>

lemma foldl_append_concat: "foldl (\<lambda>acc x. acc @ f x) a xs = a @ concat (map f xs)"
  by (induction xs arbitrary: a) auto

lemma derive_base_dn_concat:
  "derive_base_dn domain =
     rstrip (CHR '','') (concat (map (\<lambda>part. ''dc='' @ part @ '','') (split_on (CHR ''.'') domain)))"
  using foldl_append_concat [of "\<lambda>part. ''dc='' @ part @ '',''" "[]"]
  by (simp add: derive_base_dn_def)

lemma derive_base_dn_example: "derive_base_dn ''example.com'' = ''dc=example,dc=com''"
  by (simp add: derive_base_dn_def rstrip_def)

lemma EasyAD_init_derives:
  "cfg ''AD_DOMAIN'' = Some (PStr domain) \<Longrightarrow> ''AD_BASE_DN'' \<notin> dom cfg \<Longrightarrow>
   EasyAD_init cfg =
     Inr \<lparr>config = cfg(''AD_BASE_DN'' \<mapsto> PStr (derive_base_dn domain)),
          user_attributes = EasyAD_user_attributes,
          group_attributes = EasyAD_group_attributes\<rparr>"
  by (simp add: EasyAD_init_def)

lemma EasyAD_init_example: "EasyAD_init example_config = Inr example_client"
  by (simp add: EasyAD_init_def example_config_def example_client_def derive_base_dn_example)

lemma EasyAD_init_override_KeyError:
  "cfg ''AD_DOMAIN'' = Some (PStr domain) \<Longrightarrow> ''AD_BASE_DN'' \<in> dom cfg \<Longrightarrow>
   ''BASE_DN'' \<notin> dom cfg \<Longrightarrow> EasyAD_init cfg = Inl (KeyError ''BASE_DN'')"
  by (simp add: EasyAD_init_def Let_def domIff)

text \<open>
  C5: the first half holds (the two lemmas above: without \<^verbatim>\<open>AD_BASE_DN\<close> the base is
  derived from the domain, \<^verbatim>\<open>example.com\<close> giving \<^verbatim>\<open>dc=example,dc=com\<close>). The second
  half fails: a configuration that supplies \<^verbatim>\<open>AD_BASE_DN\<close> makes the constructor read
  the key \<^verbatim>\<open>BASE_DN\<close>, which the configuration does not hold, and the construction ends
  in \<^verbatim>\<open>KeyError\<close>.
\<close>

theorem EasyAD_init_override_fails:
  "EasyAD_init (example_config(''AD_BASE_DN'' \<mapsto> PStr ''ou=staff,dc=example,dc=com''))
     = Inl (KeyError ''BASE_DN'')"
  by (simp add: EasyAD_init_def example_config_def)


section \<open>Properties of the result normalizer\<close>

lemma dict_entries_filter:
  "dict_entries results = map (\<lambda>r. the_dict (snd r)) (filter (\<lambda>r. is_dict (snd r)) results)"
  by (induction results rule: dict_entries.induct) auto

lemma decode_value_scalar:
  "(\<exists>s. decode_value lib js b = PStr s) \<or> (\<exists>c. decode_value lib js b = PBytes c)"
  by (simp add: decode_value_def split: option.splits)

text \<open>
  C6. \<^verbatim>\<open>decode_ldap_results\<close> keeps the entries whose attribute map is a dictionary, in
  the order of the input, each decoded attribute by attribute. An attribute with one
  value becomes that value decoded, a scalar (text or bytes); an attribute with \<open>N > 1\<close>
  values becomes the list of its \<open>N\<close> decoded values in the order received.
\<close>

theorem decode_ldap_results_spec:
  "decode_ldap_results lib results js =
     map (\<lambda>r. decode_object lib js (the_dict (snd r))) (filter (\<lambda>r. is_dict (snd r)) results) \<and>
   (ldap_object attribute = None \<longrightarrow> decode_object lib js ldap_object attribute = None) \<and>
   (ldap_object attribute = Some vs \<and> length vs = 1 \<longrightarrow>
      decode_object lib js ldap_object attribute = Some (decode_value lib js (vs ! 0)) \<and>
      ((\<exists>s. decode_value lib js (vs ! 0) = PStr s) \<or> (\<exists>b. decode_value lib js (vs ! 0) = PBytes b))) \<and>
   (ldap_object attribute = Some vs \<and> length vs > 1 \<longrightarrow>
      (\<exists>ds. decode_object lib js ldap_object attribute = Some (PList ds) \<and> length ds = length vs \<and>
            (\<forall>i < length vs. ds ! i = decode_value lib js (vs ! i))))"
proof -
  have a: "decode_ldap_results lib results js =
     map (\<lambda>r. decode_object lib js (the_dict (snd r))) (filter (\<lambda>r. is_dict (snd r)) results)"
    by (simp add: decode_ldap_results_def dict_entries_filter)
  have b: "ldap_object attribute = None \<longrightarrow> decode_object lib js ldap_object attribute = None"
    by (simp add: decode_object_def)
  have c: "ldap_object attribute = Some vs \<and> length vs = 1 \<longrightarrow>
      decode_object lib js ldap_object attribute = Some (decode_value lib js (vs ! 0)) \<and>
      ((\<exists>s. decode_value lib js (vs ! 0) = PStr s) \<or> (\<exists>b. decode_value lib js (vs ! 0) = PBytes b))"
    using decode_value_scalar [of lib js "vs ! 0"]
    by (auto simp: decode_object_def decode_attribute_def Let_def hd_conv_nth length_Suc_conv)
  have d: "ldap_object attribute = Some vs \<and> length vs > 1 \<longrightarrow>
      (\<exists>ds. decode_object lib js ldap_object attribute = Some (PList ds) \<and> length ds = length vs \<and>
            (\<forall>i < length vs. ds ! i = decode_value lib js (vs ! i)))"
    by (auto simp: decode_object_def decode_attribute_def Let_def)
  from a b c d show ?thesis by blast
qed

theorem decode_ldap_results_spec_witness:
  "length (decode_ldap_results ascii_lib
     [(None, RawReferral [''ldap://dc2.example.com'']),
      (Some ''CN=bob'', RawDict [''cn'' \<mapsto> [''bob''], ''memberOf'' \<mapsto> [''CN=B'', ''CN=a'']])] False) = 1 \<and>
   [''cn'' \<mapsto> [''bob''], ''memberOf'' \<mapsto> [''CN=B'', ''CN=a'']] ''mail'' = None \<and>
   decode_object ascii_lib False [''cn'' \<mapsto> [''bob''], ''memberOf'' \<mapsto> [''CN=B'', ''CN=a'']] ''mail'' = None \<and>
   decode_object ascii_lib False [''cn'' \<mapsto> [''bob''], ''memberOf'' \<mapsto> [''CN=B'', ''CN=a'']] ''cn''
     = Some (PStr ''bob'') \<and>
   decode_object ascii_lib False [''cn'' \<mapsto> [''bob''], ''memberOf'' \<mapsto> [''CN=B'', ''CN=a'']] ''memberOf''
     = Some (PList [PStr ''CN=B'', PStr ''CN=a''])"
proof -
  let ?m = "[''cn'' \<mapsto> [''bob''], ''memberOf'' \<mapsto> [''CN=B'', ''CN=a'']] :: string \<rightharpoonup> bytes list"
  let ?rs = "[(None, RawReferral [''ldap://dc2.example.com'']), (Some ''CN=bob'', RawDict ?m)]"
  note spec = decode_ldap_results_spec [where lib = ascii_lib and js = False and ldap_object = ?m]
  have dv: "decode_value ascii_lib False ''bob'' = PStr ''bob''"
       "decode_value ascii_lib False ''CN=B'' = PStr ''CN=B''"
       "decode_value ascii_lib False ''CN=a'' = PStr ''CN=a''"
    by (simp_all add: decode_value_def ascii_lib_def ascii_decode_def)
  have a: "length (decode_ldap_results ascii_lib ?rs False) = 1"
    using spec [where results = ?rs] by simp
  have n: "?m ''mail'' = None" by simp
  have b: "decode_object ascii_lib False ?m ''mail'' = None"
    using spec [where results = "[]" and attribute = "''mail''"] by simp
  have c: "decode_object ascii_lib False ?m ''cn'' = Some (PStr ''bob'')"
    using spec [where results = "[]" and attribute = "''cn''" and vs = "[''bob'']"] by (simp add: dv)
  have d: "decode_object ascii_lib False ?m ''memberOf'' = Some (PList [PStr ''CN=B'', PStr ''CN=a''])"
  proof -
    obtain ds where ds: "decode_object ascii_lib False ?m ''memberOf'' = Some (PList ds)"
        "length ds = Suc (Suc 0)"
        "\<forall>i<Suc (Suc 0). ds ! i = decode_value ascii_lib False ([''CN=B'', ''CN=a''] ! i)"
      using spec [where results = "[]" and attribute = "''memberOf''" and vs = "[''CN=B'', ''CN=a'']"]
      by auto
    from ds(3) have "ds ! 0 = PStr ''CN=B''" "ds ! Suc 0 = PStr ''CN=a''"
      by (simp_all add: dv)
    with ds(2) have "ds = [PStr ''CN=B'', PStr ''CN=a'']"
      by (auto simp: length_Suc_conv)
    with ds(1) show ?thesis by simp
  qed
  show ?thesis using a n b c d by simp
qed


section \<open>Invariants of the operations\<close>

lemma new_events_append: "events w' = events w @ evs \<Longrightarrow> new_events w w' = evs"
  by (simp add: new_events_def)

lemma new_events_same [simp]: "new_events w w = []"
  by (simp add: new_events_def)

lemma reported_append: "reported e (xs @ ys) = (reported e xs \<or> reported e ys)"
  by (auto simp: reported_def list_ex_iff)

lemma opened_append: "opened h (xs @ ys) = (opened h xs \<or> opened h ys)"
  by (auto simp: opened_def list_ex_iff)

lemma unbind_calls_append: "unbind_calls h (xs @ ys) = unbind_calls h xs + unbind_calls h ys"
  by (simp add: unbind_calls_def)

lemma reported_Nil [simp]: "reported e [] = False"
  by (simp add: reported_def)

lemma opened_Nil [simp]: "opened h [] = False"
  by (simp add: opened_def)

lemma no_handle_filter: "list_all (\<lambda>x. fst x \<noteq> h) evs \<Longrightarrow> filter (\<lambda>x. fst x = h) evs = []"
  by (induction evs) auto

lemma no_handle_unbind: "list_all (\<lambda>x. fst x \<noteq> h) evs \<Longrightarrow> unbind_calls h evs = 0"
  by (induction evs) (auto simp: unbind_calls_def)

lemma no_handle_opened: "list_all (\<lambda>x. fst x \<noteq> h) evs \<Longrightarrow> \<not> opened h evs"
  by (auto simp: opened_def list_ex_iff list_all_iff)

lemma unbind_calls_Nil [simp]: "unbind_calls h [] = 0"
  by (simp add: unbind_calls_def)

lemma run_ok_value: "run_ok w (Inr x, w)"
  by (simp add: run_ok_def released_def)

lemma run_ok_error: "(\<And>e. err \<noteq> LDAPError e) \<Longrightarrow> run_ok w (Inl err, w)"
  by (simp add: run_ok_def released_def)

lemma run_ok_result:
  "run_ok w (r, w') \<Longrightarrow> (\<And>e. (r' = Inl (LDAPError e)) = (r = Inl (LDAPError e))) \<Longrightarrow>
   run_ok w (r', w')"
  by (simp add: run_ok_def)

lemma run_ok_seq:
  assumes a: "run_ok w (Inr x, w1)" and b: "run_ok w1 (r, w2)"
  shows "run_ok w (r, w2)"
proof -
  let ?e1 = "new_events w w1" and ?e2 = "new_events w1 w2"
  from a have n1: "next_conn w \<le> next_conn w1"
    and ev1: "events w1 = events w @ ?e1"
    and rg1: "list_all (\<lambda>x. next_conn w \<le> fst x \<and> fst x < next_conn w1) ?e1"
    and uc1: "\<And>h. unbind_calls h ?e1 = (if opened h ?e1 then 1 else 0)"
    and op1: "\<And>h. opened h ?e1 \<Longrightarrow> last (filter (\<lambda>x. fst x = h) ?e1) = (h, Unbind)"
    and rp1: "\<And>e. \<not> reported e ?e1"
    by (auto simp: run_ok_def released_def)
  from b have n2: "next_conn w1 \<le> next_conn w2"
    and ev2: "events w2 = events w1 @ ?e2"
    and rg2: "list_all (\<lambda>x. next_conn w1 \<le> fst x \<and> fst x < next_conn w2) ?e2"
    and uc2: "\<And>h. unbind_calls h ?e2 = (if opened h ?e2 then 1 else 0)"
    and op2: "\<And>h. opened h ?e2 \<Longrightarrow> last (filter (\<lambda>x. fst x = h) ?e2) = (h, Unbind)"
    and rp2: "\<And>e. reported e ?e2 = (r = Inl (LDAPError e))"
    by (auto simp: run_ok_def released_def)
  from ev1 ev2 have ev: "events w2 = events w @ (?e1 @ ?e2)" by simp
  then have ne: "new_events w w2 = ?e1 @ ?e2" by (rule new_events_append)
  have rg: "list_all (\<lambda>x. next_conn w \<le> fst x \<and> fst x < next_conn w2) (?e1 @ ?e2)"
    using rg1 rg2 n1 n2 by (auto simp: list_all_iff)
  have excl: "\<not> (opened h ?e1 \<and> opened h ?e2)" for h
    using rg1 rg2 by (fastforce simp: opened_def list_ex_iff list_all_iff)
  have uc: "unbind_calls h (?e1 @ ?e2) = (if opened h (?e1 @ ?e2) then 1 else 0)" for h
    using uc1 [of h] uc2 [of h] excl [of h] by (auto simp: unbind_calls_append opened_append)
  have op: "last (filter (\<lambda>x. fst x = h) (?e1 @ ?e2)) = (h, Unbind)"
    if o: "opened h (?e1 @ ?e2)" for h
  proof (cases "opened h ?e1")
    case True
    then have "h < next_conn w1" using rg1 by (auto simp: opened_def list_ex_iff list_all_iff)
    then have no: "list_all (\<lambda>x. fst x \<noteq> h) ?e2" using rg2 by (auto simp: list_all_iff)
    show ?thesis using op1 [OF True] no_handle_filter [OF no] by simp
  next
    case False
    with o have o2: "opened h ?e2" by (simp add: opened_append)
    then have "next_conn w1 \<le> h" using rg2 by (auto simp: opened_def list_ex_iff list_all_iff)
    then have no: "list_all (\<lambda>x. fst x \<noteq> h) ?e1" using rg1 by (auto simp: list_all_iff)
    show ?thesis using op2 [OF o2] no_handle_filter [OF no] by simp
  qed
  show ?thesis
    using n1 n2 ev rg uc op rp1 rp2 by (simp add: run_ok_def released_def ne reported_append)
qed

lemma body_ok_value: "body_ok h w (Inr x, w)"
  by (simp add: body_ok_def)

lemma body_ok_error: "(\<And>e. err \<noteq> LDAPError e) \<Longrightarrow> body_ok h w (Inl err, w)"
  by (simp add: body_ok_def)

lemma body_ok_result:
  "body_ok h w (r, w') \<Longrightarrow> (\<And>e. (r' = Inl (LDAPError e)) = (r = Inl (LDAPError e))) \<Longrightarrow>
   body_ok h w (r', w')"
  by (simp add: body_ok_def)

lemma body_ok_seq:
  assumes a: "body_ok h w (Inr x, w1)" and b: "body_ok h w1 (r, w2)"
  shows "body_ok h w (r, w2)"
proof -
  let ?e1 = "new_events w w1" and ?e2 = "new_events w1 w2"
  from a b have "events w2 = events w @ (?e1 @ ?e2)" by (simp add: body_ok_def)
  then have ne: "new_events w w2 = ?e1 @ ?e2" by (rule new_events_append)
  show ?thesis using a b by (auto simp: body_ok_def ne reported_append)
qed

lemma bind_credentials_not_LDAPError: "bind_credentials cfg credentials \<noteq> Inl (LDAPError e)"
  by (simp add: bind_credentials_def)

lemma bind_username_not_LDAPError: "bind_username lib cfg u \<noteq> Inl (LDAPError e)"
  by (auto simp: bind_username_def Let_def split: pyval.splits option.splits)

lemma bind_body: "body_ok (ad c) w (bind sys c credentials w)"
proof (cases "bind_credentials (conn_config c) credentials")
  case (Inl err)
  then show ?thesis
    using bind_credentials_not_LDAPError [of "conn_config c" credentials]
    by (simp add: bind_def body_ok_def)
next
  case (Inr creds)
  show ?thesis
  proof (cases "bind_username (lib_of sys) (conn_config c) (the (creds ''username''))")
    case (Inl err)
    then show ?thesis
      using Inr bind_username_not_LDAPError [of "lib_of sys" "conn_config c" "the (creds ''username'')"]
      by (simp add: bind_def body_ok_def)
  next
    case u: (Inr username)
    show ?thesis
      using Inr u
      by (auto simp: bind_def body_ok_def Let_def log_event_def new_events_def reported_def
               split: option.splits)
  qed
qed

lemma search_s_body: "body_ok (ad c) w (search_s sys c base filterstr attrlist w)"
  by (auto simp: search_s_def body_ok_def log_event_def new_events_def reported_def
           split: sum.splits)

lemma py_int_not_LDAPError: "py_int lib v \<noteq> Inl (LDAPError e)"
  by (cases v) (auto split: option.splits)

lemma convert_ad_timestamp_not_LDAPError: "convert_ad_timestamp lib v js fmt \<noteq> Inl (LDAPError e)"
  using py_int_not_LDAPError [of lib v e]
  by (auto simp: convert_ad_timestamp_def seconds_since_epoch_def timedelta_seconds_def
           datetime_add_def Let_def split: sum.splits if_splits)

lemma get_last_logon_not_LDAPError: "get_last_logon lib now v js \<noteq> Inl (LDAPError e)"
  using convert_ad_timestamp_not_LDAPError [of lib v False "''%x %X''" e]
  by (auto simp: get_last_logon_def Let_def split: sum.splits pyval.splits if_splits)

lemma py_iter_not_LDAPError: "py_iter v \<noteq> Inl (LDAPError e)"
  by (cases v) auto

lemma py_sorted_lower_not_LDAPError: "py_sorted_lower lib v \<noteq> Inl (LDAPError e)"
  using py_iter_not_LDAPError [of v e]
  by (auto simp: py_sorted_lower_def split: sum.splits if_splits)

lemma update_attr_not_LDAPError:
  "(\<And>v. f v \<noteq> Inl (LDAPError e)) \<Longrightarrow> update_attr k f d \<noteq> Inl (LDAPError e)"
  by (auto simp: update_attr_def split: option.splits sum.splits)

lemma decode_user_account_control_not_LDAPError:
  "decode_user_account_control lib user \<noteq> Inl (LDAPError e)"
  using py_int_not_LDAPError [of lib _ e]
  by (auto simp: decode_user_account_control_def split: option.splits sum.splits)

lemma enhance_user_not_LDAPError: "enhance_user sys js user \<noteq> Inl (LDAPError e)"
proof
  assume a: "enhance_user sys js user = Inl (LDAPError e)"
  note u = update_attr_not_LDAPError
  have s: "\<And>k d. update_attr k (py_sorted_lower (lib_of sys)) d \<noteq> Inl (LDAPError e)"
    by (rule u) (rule py_sorted_lower_not_LDAPError)
  have l: "\<And>k d. update_attr k (\<lambda>v. get_last_logon (lib_of sys) (clock sys) v False) d \<noteq> Inl (LDAPError e)"
    by (rule u) (rule get_last_logon_not_LDAPError)
  have c: "\<And>k d. update_attr k (\<lambda>v. convert_ad_timestamp (lib_of sys) v js ''%x %X'') d \<noteq> Inl (LDAPError e)"
    by (rule u) (rule convert_ad_timestamp_not_LDAPError)
  from a show False
    using s l c decode_user_account_control_not_LDAPError [of "lib_of sys" _ e]
    by (auto simp: enhance_user_def split: sum.splits)
qed

lemma body_ok_bind_search:
  assumes k: "\<And>raw w2. body_ok (ad c) w2 (k raw w2)"
  shows "body_ok (ad c) w
     (case bind sys c credentials w of
        (Inl e, w1) \<Rightarrow> (Inl e, w1)
      | (Inr ok, w1) \<Rightarrow>
          (case search_s sys c base filterstr attrlist w1 of
             (Inl e, w2) \<Rightarrow> (Inl e, w2)
           | (Inr raw, w2) \<Rightarrow> k raw w2))"
proof (cases "bind sys c credentials w")
  case (Pair rb w1)
  note b = bind_body [of c w sys credentials, unfolded Pair]
  show ?thesis
  proof (cases rb)
    case (Inl err)
    then show ?thesis using Pair b by (simp add: body_ok_def)
  next
    case (Inr ok)
    obtain rs w2 where s: "search_s sys c base filterstr attrlist w1 = (rs, w2)"
      by (cases "search_s sys c base filterstr attrlist w1")
    note sb = search_s_body [of c w1 sys base filterstr attrlist, unfolded s]
    show ?thesis
    proof (cases rs)
      case (Inl err)
      with sb have "body_ok (ad c) w1 (Inl err :: error + 'a, w2)" by (simp add: body_ok_def)
      with b Inr have "body_ok (ad c) w (Inl err :: error + 'a, w2)" by (auto intro: body_ok_seq)
      then show ?thesis using Pair Inr s Inl by simp
    next
      case r: (Inr raw)
      obtain r3 w3 where k3: "k raw w2 = (r3, w3)" by (cases "k raw w2")
      from sb r b Inr have "body_ok (ad c) w (Inr raw :: error + raw_result list, w2)"
        by (auto intro: body_ok_seq)
      moreover from k [of w2 raw] k3 have "body_ok (ad c) w2 (r3, w3)" by simp
      ultimately have "body_ok (ad c) w (r3, w3)" by (rule body_ok_seq)
      then show ?thesis using Pair Inr s r k3 by simp
    qed
  qed
qed

lemma get_user_try_body:
  "body_ok (ad c) w (get_user_try sys c credentials base filter_string attributes json_safe w)"
  unfolding get_user_try_def
  by (rule body_ok_bind_search)
     (auto simp: Let_def body_ok_def enhance_user_not_LDAPError)

lemma get_group_try_body:
  "body_ok (ad c) w (get_group_try sys c credentials base group_filter attributes json_safe w)"
  unfolding get_group_try_def
  by (rule body_ok_bind_search) (auto simp: Let_def body_ok_def)

lemma distinguished_name_not_LDAPError: "distinguished_name d \<noteq> Inl (LDAPError e)"
  by (simp add: distinguished_name_def split: option.splits)

lemma distinguished_names_not_LDAPError: "distinguished_names ds \<noteq> Inl (LDAPError e)"
  by (induction ds) (auto simp: distinguished_name_not_LDAPError split: sum.splits)

lemma search_dns_try_body:
  "body_ok (ad c) w (search_dns_try sys c credentials base filter_string json_safe w)"
  unfolding search_dns_try_def
  by (rule body_ok_bind_search)
     (auto simp: body_ok_def distinguished_names_not_LDAPError py_sorted_lower_not_LDAPError
           split: sum.splits)

lemma ADConnection_init_cases:
  "ADConnection_init sys cfg w = (r, w1) \<Longrightarrow>
     (r = Inl (KeyError ''AD_SERVER'') \<and> w1 = w) \<or>
     (\<exists>url e. r = Inl (LDAPError e) \<and> next_conn w1 = Suc (next_conn w) \<and>
        events w1 = events w @ [(next_conn w, Initialize url (Some e))]) \<or>
     (\<exists>c url opts. r = Inr c \<and> ad c = next_conn w \<and> next_conn w1 = Suc (next_conn w) \<and>
        events w1 = events w @ (next_conn w, Initialize url None) # opts \<and>
        list_all (\<lambda>x. fst x = next_conn w \<and> (\<exists>n v. snd x = Set_option n v)) opts)"
  by (auto simp: ADConnection_init_def Let_def log_event_def split: option.splits if_splits)

lemma filter_all: "list_all P xs \<Longrightarrow> filter P xs = xs"
  by (induction xs) auto

lemma filter_none: "list_all (\<lambda>x. \<not> P x) xs \<Longrightarrow> filter P xs = []"
  by (induction xs) auto

lemma connection_run:
  assumes body: "\<And>c w1. body_ok (ad c) w1 (body c w1)"
  shows "run_ok w
     (case ADConnection_init sys cfg w of
        (Inl e, w1) \<Rightarrow> (Inl e, w1)
      | (Inr c, w1) \<Rightarrow> (case body c w1 of (r, w2) \<Rightarrow> (r, unbind c w2)))"
proof -
  obtain r0 w1 where i: "ADConnection_init sys cfg w = (r0, w1)"
    by (cases "ADConnection_init sys cfg w")
  from ADConnection_init_cases [OF i]
  consider (key) "r0 = Inl (KeyError ''AD_SERVER'')" "w1 = w"
    | (fail) url e where "r0 = Inl (LDAPError e)" "next_conn w1 = Suc (next_conn w)"
        "events w1 = events w @ [(next_conn w, Initialize url (Some e))]"
    | (ok) c url opts where "r0 = Inr c" "ad c = next_conn w" "next_conn w1 = Suc (next_conn w)"
        "events w1 = events w @ (next_conn w, Initialize url None) # opts"
        "list_all (\<lambda>x. fst x = next_conn w \<and> (\<exists>n v. snd x = Set_option n v)) opts"
    by blast
  then show ?thesis
  proof cases
    case key
    then show ?thesis using i by (simp add: run_ok_error)
  next
    case fail
    have ne: "new_events w w1 = [(next_conn w, Initialize url (Some e))]"
      using fail(3) by (rule new_events_append)
    show ?thesis using i fail
      by (auto simp: run_ok_def released_def ne reported_def opened_def unbind_calls_def)
  next
    case ok
    let ?h = "next_conn w"
    obtain r w2 where b: "body c w1 = (r, w2)" by (cases "body c w1")
    let ?bevs = "new_events w1 w2"
    from body [of c w1] b ok(2) have nb: "next_conn w2 = next_conn w1"
      and eb: "events w2 = events w1 @ ?bevs"
      and lb: "list_all (\<lambda>x. fst x = ?h \<and> \<not> opens (snd x) \<and> snd x \<noteq> Unbind) ?bevs"
      and rb: "\<And>e. reported e ?bevs = (r = Inl (LDAPError e))"
      by (auto simp: body_ok_def)
    let ?evs = "((?h, Initialize url None) # opts) @ ?bevs @ [(?h, Unbind)]"
    let ?w3 = "unbind c w2"
    have e3: "events ?w3 = events w @ ?evs"
      using eb ok(2,4) by (simp add: unbind_def log_event_def)
    then have ne: "new_events w ?w3 = ?evs" by (rule new_events_append)
    have n3: "next_conn ?w3 = Suc ?h"
      using nb ok(3) by (simp add: unbind_def log_event_def)
    have allh: "list_all (\<lambda>x. fst x = ?h) ?evs"
      using ok(5) lb by (auto simp: list_all_iff)
    have fl: "filter (\<lambda>x. fst x = h) ?evs = ?evs" if "h = ?h" for h
      using allh that by (simp only: filter_all)
    have uo: "list_all (\<lambda>x. \<not> x = (?h, Unbind)) opts"
      using ok(5) by (auto simp: list_all_iff)
    have ub: "list_all (\<lambda>x. \<not> x = (?h, Unbind)) ?bevs"
      using lb by (auto simp: list_all_iff)
    have uc: "unbind_calls ?h ?evs = 1"
      using filter_none [OF uo] filter_none [OF ub] by (simp add: unbind_calls_def)
    have oh: "h = ?h" if "opened h ?evs" for h
      using that allh by (auto simp: opened_def list_ex_iff list_all_iff)
    have ro: "\<not> reported e ((?h, Initialize url None) # opts)" for e
      using ok(5) by (auto simp: reported_def list_ex_iff list_all_iff)
    have rp: "reported e ?evs = (r = Inl (LDAPError e))" for e
      using ro [of e] rb [of e] by (simp add: reported_append reported_def)
    have oh': "opened ?h ?evs" by (simp add: opened_def)
    have un: "unbind_calls h ?evs = 0" if "h \<noteq> ?h" for h
    proof -
      have "list_all (\<lambda>x. fst x \<noteq> h) ?evs" using allh that by (auto simp: list_all_iff)
      then show ?thesis by (rule no_handle_unbind)
    qed
    have rel: "released w ?w3"
      unfolding released_def ne
    proof (intro conjI allI impI)
      show "events ?w3 = events w @ ?evs" by (rule e3)
    next
      fix h
      show "unbind_calls h ?evs = (if opened h ?evs then 1 else 0)"
      proof (cases "h = ?h")
        case True
        then show ?thesis using uc oh' by simp
      next
        case False
        then show ?thesis using un [OF False] oh [of h] by auto
      qed
    next
      fix h assume "opened h ?evs"
      then have h: "h = ?h" by (rule oh)
      have "last ?evs = (?h, Unbind)" by simp
      then show "last (filter (\<lambda>x. fst x = h) ?evs) = (h, Unbind)"
        using fl [OF h] h by simp
    qed
    have rg: "list_all (\<lambda>x. ?h \<le> fst x \<and> fst x < Suc ?h) ?evs"
      using allh by (auto simp: list_all_iff)
    have "run_ok w (r, ?w3)"
      unfolding run_ok_def using rel rg rp n3 by (simp add: ne)
    then show ?thesis using i ok(1) b by simp
  qed
qed

lemma get_user_run:
  "run_ok w (get_user sys self user_string base credentials attributes json_safe w)"
proof (cases "default_base self base")
  case (Inl err)
  then have "\<And>e. err \<noteq> LDAPError e" by (auto simp: default_base_def split: option.splits)
  then show ?thesis using Inl by (simp add: get_user_def run_ok_error)
next
  case (Inr b)
  show ?thesis
    using Inr connection_run [where body = "\<lambda>c w1. get_user_try sys c credentials b _ _ json_safe w1",
        OF get_user_try_body]
    by (simp add: get_user_def Let_def)
qed

lemma get_group_run:
  "run_ok w (get_group sys self group_string base credentials attributes json_safe w)"
proof (cases "default_base self base")
  case (Inl err)
  then have "\<And>e. err \<noteq> LDAPError e" by (auto simp: default_base_def split: option.splits)
  then show ?thesis using Inl by (simp add: get_group_def run_ok_error)
next
  case (Inr b)
  let ?post = "\<lambda>rw. case rw of
      (Inl e, w2) \<Rightarrow> (Inl e :: error + entry, w2 :: world)
    | (Inr results, w2) \<Rightarrow> (update_attr ''member'' (py_sorted_lower (lib_of sys)) (results ! 0), w2)"
  have post: "body_ok h w1 (?post rw)" if "body_ok h w1 rw" for h w1 and rw :: "(error + entry list) \<times> world"
    using that update_attr_not_LDAPError [of "py_sorted_lower (lib_of sys)", OF py_sorted_lower_not_LDAPError]
    by (cases rw; cases "fst rw") (auto simp: body_ok_def)
  let ?esc = "escape_filter_chars (lib_of sys) group_string"
  let ?F = "''(&(objectClass=Group)(|(cn='' @ ?esc @ '')(distinguishedName='' @ ?esc @ '')))''"
  let ?A = "case attributes of None \<Rightarrow> group_attributes self | Some a \<Rightarrow> a"
  have eq: "get_group sys self group_string base credentials attributes json_safe w =
      (case ADConnection_init sys (config self) w of
         (Inl e, w1) \<Rightarrow> (Inl e, w1)
       | (Inr c, w1) \<Rightarrow>
           (case ?post (get_group_try sys c credentials b ?F ?A json_safe w1) of
              (r, w2) \<Rightarrow> (r, unbind c w2)))"
    using Inr by (auto simp: get_group_def Let_def split: prod.splits sum.splits)
  show ?thesis
    unfolding eq
    by (rule connection_run [where body = "\<lambda>c w1. ?post (get_group_try sys c credentials b ?F ?A json_safe w1)",
        OF post [OF get_group_try_body]])
qed

lemma run_ok_then_pure:
  assumes "run_ok w (r, w')"
    and "\<And>x. r = Inr x \<Longrightarrow> \<forall>e. f x \<noteq> Inl (LDAPError e)"
  shows "run_ok w (case r of Inl e \<Rightarrow> Inl e | Inr x \<Rightarrow> f x, w')"
  using assms by (cases r) (auto simp: run_ok_def)

lemma resolve_user_dn_run:
  "run_ok w (resolve_user_dn sys self user base credentials json_safe w)"
proof (cases user)
  case (RefDict d)
  then show ?thesis
    using distinguished_name_not_LDAPError [of d]
    by (cases "distinguished_name d") (auto simp: resolve_user_dn_def run_ok_value run_ok_error)
next
  case (RefVal v)
  show ?thesis
  proof (cases "\<exists>s. v = PStr s \<and> \<not> prefix ''cn='' (str_lower (lib_of sys) s)")
    case True
    then obtain s where s: "v = PStr s" "\<not> prefix ''cn='' (str_lower (lib_of sys) s)" by blast
    obtain r w' where g: "get_user sys self s base credentials None json_safe w = (r, w')"
      by (cases "get_user sys self s base credentials None json_safe w")
    have "run_ok w (r, w')" using get_user_run [of w sys self s base credentials None json_safe] g by simp
    then have "run_ok w (case r of Inl e \<Rightarrow> Inl e | Inr u \<Rightarrow> distinguished_name u, w')"
      by (rule run_ok_then_pure) (simp add: distinguished_name_not_LDAPError)
    then show ?thesis using RefVal s g by (cases r) (auto simp: resolve_user_dn_def)
  next
    case False
    then show ?thesis using RefVal
      by (cases v) (auto simp: resolve_user_dn_def run_ok_value run_ok_error)
  qed
qed

lemma resolve_group_dn_run:
  "run_ok w (resolve_group_dn sys self grp base credentials json_safe w)"
proof (cases grp)
  case (RefDict d)
  then show ?thesis
    using distinguished_name_not_LDAPError [of d]
    by (cases "distinguished_name d") (auto simp: resolve_group_dn_def run_ok_value run_ok_error)
next
  case (RefVal v)
  show ?thesis
  proof (cases "\<exists>s. v = PStr s \<and> \<not> prefix ''cn='' (str_lower (lib_of sys) s)")
    case True
    then obtain s where s: "v = PStr s" "\<not> prefix ''cn='' (str_lower (lib_of sys) s)" by blast
    obtain r w' where g: "get_group sys self s base credentials None json_safe w = (r, w')"
      by (cases "get_group sys self s base credentials None json_safe w")
    have "run_ok w (r, w')" using get_group_run [of w sys self s base credentials None json_safe] g by simp
    then have "run_ok w (case r of Inl e \<Rightarrow> Inl e | Inr u \<Rightarrow> distinguished_name u, w')"
      by (rule run_ok_then_pure) (simp add: distinguished_name_not_LDAPError)
    then show ?thesis using RefVal s g by (cases r) (auto simp: resolve_group_dn_def)
  next
    case False
    then show ?thesis using RefVal
      by (cases v) (auto simp: resolve_group_dn_def run_ok_value run_ok_error)
  qed
qed

lemma run_ok_bind:
  assumes a: "run_ok w (r, w1)"
    and k: "\<And>x. r = Inr x \<Longrightarrow> run_ok w1 (k x w1)"
  shows "run_ok w (case (r, w1) of (Inl e, w1) \<Rightarrow> (Inl e, w1) | (Inr x, w1) \<Rightarrow> k x w1)"
proof (cases r)
  case (Inl e)
  then show ?thesis using a by (simp add: run_ok_def)
next
  case (Inr x)
  obtain r2 w2 where k2: "k x w1 = (r2, w2)" by (cases "k x w1")
  from a Inr have "run_ok w (Inr x :: error + 'a, w1)" by simp
  moreover from k [OF Inr] k2 have "run_ok w1 (r2, w2)" by simp
  ultimately have "run_ok w (r2, w2)" by (rule run_ok_seq)
  then show ?thesis using Inr k2 by simp
qed

lemma escape_value_not_LDAPError: "escape_value lib v \<noteq> Inl (LDAPError e)"
  by (cases v) auto

lemma default_base_not_LDAPError: "default_base self base \<noteq> Inl (LDAPError e)"
  by (auto simp: default_base_def split: option.splits)

lemma search_connection_run:
  "run_ok w
     (case default_base self base of
        Inl e \<Rightarrow> (Inl e, w)
      | Inr base' \<Rightarrow>
          (case escape_value (lib_of sys) dn of
             Inl e \<Rightarrow> (Inl e, w)
           | Inr escaped \<Rightarrow>
               (case ADConnection_init sys (config self) w of
                  (Inl e, w2) \<Rightarrow> (Inl e, w2)
                | (Inr connection, w2) \<Rightarrow>
                    (case search_dns_try sys connection credentials base' (mk escaped) json_safe w2 of
                       (r, w3) \<Rightarrow> (r, unbind connection w3)))))"
proof (cases "default_base self base")
  case (Inl err)
  then show ?thesis using default_base_not_LDAPError [of self base]
    by (simp add: run_ok_error)
next
  case b: (Inr base')
  show ?thesis
  proof (cases "escape_value (lib_of sys) dn")
    case (Inl err)
    then show ?thesis using b escape_value_not_LDAPError [of "lib_of sys" dn]
      by (simp add: run_ok_error)
  next
    case (Inr escaped)
    show ?thesis
      using b Inr
        connection_run [where body = "\<lambda>c w1. search_dns_try sys c credentials base' (mk escaped) json_safe w1",
          OF search_dns_try_body]
      by simp
  qed
qed

lemma get_all_user_groups_run:
  "run_ok w (get_all_user_groups sys self user base credentials json_safe w)"
proof -
  obtain r w1 where rs: "resolve_user_dn sys self user None None False w = (r, w1)"
    by (cases "resolve_user_dn sys self user None None False w")
  have a: "run_ok w (r, w1)"
    using resolve_user_dn_run [of w sys self user None None False] rs by simp
  show ?thesis
    unfolding get_all_user_groups_def rs Let_def
    by (rule run_ok_bind [OF a]) (rule search_connection_run)
qed

lemma get_all_users_in_group_run:
  "run_ok w (get_all_users_in_group sys self grp base credentials json_safe w)"
proof -
  obtain r w1 where rs: "resolve_group_dn sys self grp None None False w = (r, w1)"
    by (cases "resolve_group_dn sys self grp None None False w")
  have a: "run_ok w (r, w1)"
    using resolve_group_dn_run [of w sys self grp None None False] rs by simp
  show ?thesis
    unfolding get_all_users_in_group_def rs Let_def
    by (rule run_ok_bind [OF a]) (rule search_connection_run)
qed





lemmas run_defs =
  get_user_def get_user_try_def get_group_def get_group_try_def default_base_def
  ADConnection_init_def bind_def bind_credentials_def bind_username_def search_s_def unbind_def
  log_event_def decode_ldap_results_def decode_object_def decode_attribute_def decode_value_def
  enhance_user_def update_attr_def py_sorted_lower_def decode_user_account_control_def
  get_last_logon_def convert_ad_timestamp_def seconds_since_epoch_2016 timedelta_seconds_def
  timedelta_micros_numeral datetime_add_def
  fake_system_def fake_directory_def ascii_lib_def ascii_decode_def example_client_def
  example_config_def world0_def Let_def sublist_Cons_right parse_int_def digit_value_def
  epoch_start_value datetime_max_value us_per_day_def escape_char_def


lemma failed_search_events:
  "new_events world0
     (snd (get_user (fake_system (Inl SERVER_DOWN) 0) example_client ''bob'' None None
             (Some [''cn'']) False world0))
   = [(0, Initialize ''ldap://dc1.example.com'' None),
      (0, Set_option ''OPT_PROTOCOL_VERSION'' (PInt 3)),
      (0, Set_option ''OPT_REFERRALS'' (PInt 0)),
      (0, Set_option ''OPT_X_TLS_DEMAND'' (PInt 1)),
      (0, Bind_s ''svc@example.com'' (PStr ''secret'') None),
      (0, Search_s (PStr ''dc=example,dc=com'')
            ''(&(objectClass=user)(|(userPrincipalName=bob)(sAMAccountName=bob)(mail=bob)(distinguishedName=bob)))''
            [''cn''] (Some SERVER_DOWN)),
      (0, Unbind)]"
  by (simp add: run_defs new_events_def)


lemma nested_lookup_events:
  "new_events world0
     (snd (get_all_user_groups
             (fake_system (Inr [(Some ''CN=bob'', RawDict [''distinguishedName'' \<mapsto> [''CN=bob'']])]) 0)
             example_client (RefVal (PStr ''bob'')) None None False world0))
   = [(0, Initialize ''ldap://dc1.example.com'' None),
      (0, Set_option ''OPT_PROTOCOL_VERSION'' (PInt 3)),
      (0, Set_option ''OPT_REFERRALS'' (PInt 0)),
      (0, Set_option ''OPT_X_TLS_DEMAND'' (PInt 1)),
      (0, Bind_s ''svc@example.com'' (PStr ''secret'') None),
      (0, Search_s (PStr ''dc=example,dc=com'')
            ''(&(objectClass=user)(|(userPrincipalName=bob)(sAMAccountName=bob)(mail=bob)(distinguishedName=bob)))''
            EasyAD_user_attributes None),
      (0, Unbind),
      (1, Initialize ''ldap://dc1.example.com'' None),
      (1, Set_option ''OPT_PROTOCOL_VERSION'' (PInt 3)),
      (1, Set_option ''OPT_REFERRALS'' (PInt 0)),
      (1, Set_option ''OPT_X_TLS_DEMAND'' (PInt 1)),
      (1, Bind_s ''svc@example.com'' (PStr ''secret'') None),
      (1, Search_s (PStr ''dc=example,dc=com'') ''(member:1.2.840.113556.1.4.1941:=CN=bob)''
            [''distinguishedName''] None),
      (1, Unbind)]"
  by (simp add: get_all_user_groups_def resolve_user_dn_def search_dns_try_def
        distinguished_name_def run_defs new_events_def)

section \<open>Release of connections\<close>

text \<open>
  C3. \<^verbatim>\<open>get_user\<close>, \<^verbatim>\<open>get_group\<close>, \<^verbatim>\<open>get_all_user_groups\<close> and \<^verbatim>\<open>get_all_users_in_group\<close>
  release every connection they open, whatever the outcome: in the calls that a run
  appends to the log, \<^verbatim>\<open>unbind\<close> occurs exactly once under each handle the run opened,
  as the last call on that handle, and under no other handle. This holds for every
  directory, so also when \<^verbatim>\<open>bind_s\<close> or \<^verbatim>\<open>search_s\<close> raises.
\<close>

theorem unbind_exactly_once:
  "released w (snd (get_user sys self user_string base credentials attributes json_safe w)) \<and>
   released w (snd (get_group sys self group_string base credentials attributes json_safe w)) \<and>
   released w (snd (get_all_user_groups sys self user base credentials json_safe w)) \<and>
   released w (snd (get_all_users_in_group sys self grp base credentials json_safe w))"
  using get_user_run [of w sys self user_string base credentials attributes json_safe]
    get_group_run [of w sys self group_string base credentials attributes json_safe]
    get_all_user_groups_run [of w sys self user base credentials json_safe]
    get_all_users_in_group_run [of w sys self grp base credentials json_safe]
  by (simp add: run_ok_def)

text \<open>A run of \<^verbatim>\<open>get_user\<close> whose search raises \<^verbatim>\<open>SERVER_DOWN\<close>: the error propagates and
  the connection is released once. A run of \<^verbatim>\<open>get_all_user_groups\<close> that first resolves the
  user: it opens two connections and releases each once.\<close>

theorem unbind_exactly_once_witness:
  "fst (get_user (fake_system (Inl SERVER_DOWN) 0) example_client ''bob'' None None
          (Some [''cn'']) False world0) = Inl (LDAPError SERVER_DOWN) \<and>
   opened 0 (new_events world0
     (snd (get_user (fake_system (Inl SERVER_DOWN) 0) example_client ''bob'' None None
             (Some [''cn'']) False world0))) \<and>
   unbind_calls 0 (new_events world0
     (snd (get_user (fake_system (Inl SERVER_DOWN) 0) example_client ''bob'' None None
             (Some [''cn'']) False world0))) = 1 \<and>
   last (filter (\<lambda>x. fst x = 0) (new_events world0
     (snd (get_user (fake_system (Inl SERVER_DOWN) 0) example_client ''bob'' None None
             (Some [''cn'']) False world0)))) = (0, Unbind) \<and>
   opened 1 (new_events world0
     (snd (get_all_user_groups
             (fake_system (Inr [(Some ''CN=bob'', RawDict [''distinguishedName'' \<mapsto> [''CN=bob'']])]) 0)
             example_client (RefVal (PStr ''bob'')) None None False world0))) \<and>
   unbind_calls 0 (new_events world0
     (snd (get_all_user_groups
             (fake_system (Inr [(Some ''CN=bob'', RawDict [''distinguishedName'' \<mapsto> [''CN=bob'']])]) 0)
             example_client (RefVal (PStr ''bob'')) None None False world0))) = 1 \<and>
   unbind_calls 1 (new_events world0
     (snd (get_all_user_groups
             (fake_system (Inr [(Some ''CN=bob'', RawDict [''distinguishedName'' \<mapsto> [''CN=bob'']])]) 0)
             example_client (RefVal (PStr ''bob'')) None None False world0))) = 1"
proof -
  let ?sys2 = "fake_system (Inr [(Some ''CN=bob'', RawDict [''distinguishedName'' \<mapsto> [''CN=bob'']])]) 0"
  let ?run2 = "get_all_user_groups ?sys2 example_client (RefVal (PStr ''bob'')) None None False world0"
  have o0: "opened 0 (new_events world0 (snd ?run2))"
    by (simp add: nested_lookup_events opened_def)
  have o1: "opened 1 (new_events world0 (snd ?run2))"
    by (simp add: nested_lookup_events opened_def)
  have rel2: "released world0 (snd ?run2)"
    using unbind_exactly_once [where w = world0 and sys = ?sys2 and self = example_client
        and user = "RefVal (PStr ''bob'')" and base = None and credentials = None
        and json_safe = False]
    by simp
  from rel2 o0 have u0: "unbind_calls 0 (new_events world0 (snd ?run2)) = 1"
    unfolding released_def by presburger
  from rel2 o1 have u1: "unbind_calls 1 (new_events world0 (snd ?run2)) = 1"
    unfolding released_def by presburger
  let ?run = "get_user (fake_system (Inl SERVER_DOWN) 0) example_client ''bob'' None None
             (Some [''cn'']) False world0"
  have r: "fst ?run = Inl (LDAPError SERVER_DOWN)"
    by (simp add: run_defs)
  have o: "opened 0 (new_events world0 (snd ?run))"
    by (simp add: failed_search_events opened_def)
  have rel: "released world0 (snd ?run)"
    using unbind_exactly_once [where w = world0 and sys = "fake_system (Inl SERVER_DOWN) 0"
        and self = example_client and user_string = "''bob''" and base = None
        and credentials = None and attributes = "Some [''cn'']" and json_safe = False]
    by simp
  from rel o have u: "unbind_calls 0 (new_events world0 (snd ?run)) = 1"
    unfolding released_def by presburger
  from rel o have l: "last (filter (\<lambda>x. fst x = 0) (new_events world0 (snd ?run))) = (0, Unbind)"
    unfolding released_def by blast
  show ?thesis using r o u l o1 u0 u1 by simp
qed


section \<open>Authentication and propagation of errors\<close>








section \<open>Uniqueness and sorted lists\<close>

lemma get_user_try_results:
  "bind sys c credentials w = (Inr ok, w1) \<Longrightarrow>
   search_s sys c base filter_string attributes w1 = (Inr raw, w2) \<Longrightarrow>
   fst (get_user_try sys c credentials base filter_string attributes json_safe w) =
     (if dict_entries raw = [] then Inl (ValueError ''No such user'')
      else if length (dict_entries raw) > 1
      then Inl (ValueError ''The query returned more than one result'')
      else enhance_user sys json_safe (decode_object (lib_of sys) json_safe (hd (dict_entries raw))))"
  by (auto simp: get_user_try_def decode_ldap_results_def Let_def hd_conv_nth nth_map)

lemma get_group_try_results:
  "bind sys c credentials w = (Inr ok, w1) \<Longrightarrow>
   search_s sys c base group_filter attributes w1 = (Inr raw, w2) \<Longrightarrow>
   fst (get_group_try sys c credentials base group_filter attributes json_safe w) =
     (if dict_entries raw = [] then Inl (ValueError ''No such group'')
      else if length (dict_entries raw) > 1
      then Inl (ValueError ''The query returned more than one result'')
      else Inr (decode_ldap_results (lib_of sys) raw json_safe))"
  by (auto simp: get_group_try_def decode_ldap_results_def Let_def)

lemma py_sorted_lower_texts:
  "list_all is_text xs \<Longrightarrow>
   py_sorted_lower lib (PList xs) = Inr (PList (sort_key (\<lambda>x. str_lower lib (the_text x)) xs)) \<and>
   mset (sort_key (\<lambda>x. str_lower lib (the_text x)) xs) = mset xs \<and>
   sorted (map (\<lambda>x. str_lower lib (the_text x)) (sort_key (\<lambda>x. str_lower lib (the_text x)) xs))"
  by (auto simp: py_sorted_lower_def list_all_iff list_ex_iff)

lemma py_sorted_lower_scalar:
  "py_sorted_lower lib (PStr s) =
     Inr (PList (sort_key (\<lambda>x. str_lower lib (the_text x)) (map (\<lambda>c. PStr [c]) s)))"
  by (auto simp: py_sorted_lower_def list_all_iff list_ex_iff)


text \<open>
  C1: the errors for no match and for several matches hold, and a list attribute with
  two or more text values is sorted by lower case (the lemmas above). The claim fails
  for a list attribute with exactly one value: \<^verbatim>\<open>decode_ldap_results\<close> has replaced the
  one-element list by its element, and \<^verbatim>\<open>sorted\<close> then iterates over the characters of
  that text. A user in the single group \<^verbatim>\<open>CN=Staff\<close> is returned with \<^verbatim>\<open>memberOf\<close> the sorted
  characters of that name, and a group with the single member \<^verbatim>\<open>CN=bob\<close> likewise.
\<close>

theorem single_membership_garbled:
  "(case fst (get_user (fake_system (Inr [(Some ''CN=bob'', RawDict [''memberOf'' \<mapsto> [''CN=Staff'']])]) 0)
                example_client ''bob'' None None None False world0) of
      Inl e \<Rightarrow> None
    | Inr user \<Rightarrow> user ''memberOf'')
   = Some (PList [PStr ''='', PStr ''a'', PStr ''C'', PStr ''f'', PStr ''f'', PStr ''N'',
                  PStr ''S'', PStr ''t'']) \<and>
   (case fst (get_group (fake_system (Inr [(Some ''CN=Staff'', RawDict [''member'' \<mapsto> [''CN=bob'']])]) 0)
                example_client ''Staff'' None None None False world0) of
      Inl e \<Rightarrow> None
    | Inr g \<Rightarrow> g ''member'')
   = Some (PList [PStr ''='', PStr ''b'', PStr ''b'', PStr ''C'', PStr ''N'', PStr ''o''])"
  by (simp add: run_defs)


section \<open>Timestamps of a user entry\<close>

lemma convert_ad_timestamp_json_safe:
  "convert_ad_timestamp lib v True fmt = Inr r \<Longrightarrow> r = PNone \<or> (\<exists>s. r = PStr s)"
  by (auto simp: convert_ad_timestamp_def split: sum.splits if_splits)

lemma get_last_logon_json_safe_datetime:
  assumes c: "convert_ad_timestamp lib ts False ''%x %X'' = Inr (PDatetime d)"
    and old: "15 * us_per_day \<le> now - d"
  shows "get_last_logon lib now ts True = Inr (PDatetime d)"
proof -
  have "15 * us_per_day div us_per_day \<le> (now - d) div us_per_day"
    using old by (rule zdiv_mono1) (simp add: us_per_day_def)
  then have "\<not> (now - d) div us_per_day \<le> 14" by (simp add: us_per_day_def)
  then show ?thesis using c by (simp add: get_last_logon_def Let_def)
qed


text \<open>
  C8: with \<open>json_safe\<close>, \<^verbatim>\<open>lockoutTime\<close> and \<^verbatim>\<open>pwdLastSet\<close> are never a \<^verbatim>\<open>datetime\<close> (first
  lemma above), but \<^verbatim>\<open>lastLogonTimestamp\<close> is one whenever the logon is 15 days old or
  more (second lemma): \<^verbatim>\<open>get_user\<close> does not pass \<open>json_safe\<close> to \<^verbatim>\<open>_get_last_logon\<close>, which
  itself drops the text it formats. A logon of 2016 read in 2019 with \<open>json_safe\<close> set:
\<close>

theorem json_safe_last_logon_datetime:
  "(case fst (get_user (fake_system (Inr [(Some ''CN=bob'',
                 RawDict [''lastLogonTimestamp'' \<mapsto> [''131000000000000000'']])]) 63691123200000000)
                example_client ''bob'' None None None True world0) of
      Inl e \<Rightarrow> None
    | Inr user \<Rightarrow> user ''lastLogonTimestamp'')
   = Some (PDatetime 63591123200000000)"
  by (simp add: run_defs)

end
